theory Spec2Isabelle
  imports Complex_Main "HOL-Library.AList"
begin

section \<open>Potluck: the watch-party manager of wn\_potluck/manager.py\<close>

text \<open>
  The embedding follows \<^verbatim>\<open>src/wn-potluck/src/wn_potluck/manager.py\<close>.
  Python's insertion-ordered dictionaries are association lists with distinct keys
  (\<open>AList.update\<close> overwrites in place or appends, \<open>AList.delete\<close> removes the key,
  \<open>map_of\<close> looks a key up). Values that arrive inside a client message are
  dynamically typed, so they are values of \<open>pyval\<close>. A Python string is the list of
  its code points, an \<^verbatim>\<open>int\<close> is an integer, a \<^verbatim>\<open>float\<close> is a binary64 value with
  the rounding of its subtraction. Each coroutine of the manager is modelled as running
  to completion: the interleaving of coroutines at an \<^verbatim>\<open>await\<close> is outside the model.
\<close>

subsection \<open>Strings\<close>

text \<open>
  A string of Python is a sequence of Unicode code points, each an integer; \<open>ascii\<close>
  embeds the literals of the source, which are all ASCII.
\<close>

type_synonym pystr = "int list"

definition ascii :: "string \<Rightarrow> pystr" where
  "ascii s = map of_char s"

text \<open>
  \<^verbatim>\<open>str.upper()\<close> maps each code point to one or more code points, whatever stands
  around it. On ASCII it turns \<open>a\<close> to \<open>z\<close> into \<open>A\<close> to \<open>Z\<close> and keeps the rest; the
  images of the code points from 128 on are those of the Unicode tables, which are a
  parameter (\<open>tbl\<close>).
\<close>

definition upper_cp :: "(int \<Rightarrow> pystr) \<Rightarrow> int \<Rightarrow> pystr" where
  "upper_cp tbl c = (if 97 \<le> c \<and> c \<le> 122 then [c - 32] else if c < 128 then [c] else tbl c)"

definition py_upper :: "(int \<Rightarrow> pystr) \<Rightarrow> pystr \<Rightarrow> pystr" where
  "py_upper tbl s = concat (map (upper_cp tbl) s)"

subsection \<open>Floats\<close>

text \<open>
  A \<^verbatim>\<open>float\<close> is an IEEE 754 binary64 value: a finite value (\<open>Finite 0\<close> is \<open>+0.0\<close>),
  \<open>-0.0\<close>, an infinity or a NaN. \<open>round_double x\<close> is the binary64 value nearest to the
  real \<open>x\<close>, ties to the even significand: \<open>binary_exponent x\<close> is the \<open>k\<close> with
  \<open>2 ^ k \<le> \<bar>x\<bar> < 2 ^ (k + 1)\<close>, the significand has 53 bits, the least exponent of a
  unit in the last place is \<open>-1074\<close>, and what rounds to \<open>2 ^ 1024\<close> or more is an infinity.
\<close>

datatype double = Finite real | NegZero | PosInf | NegInf | NaN

function bit_length :: "int \<Rightarrow> nat" where
  "bit_length n = (if n \<le> 0 then 0 else Suc (bit_length (n div 2)))"
  by pat_completeness auto
termination
  by (relation "measure nat") auto

declare bit_length.simps [simp del]

definition pow2 :: "int \<Rightarrow> real" where
  "pow2 q = (if 0 \<le> q then 2 ^ nat q else 1 / 2 ^ nat (- q))"

definition binary_exponent :: "real \<Rightarrow> int" where
  "binary_exponent x =
     (if 1 \<le> \<bar>x\<bar> then int (bit_length \<lfloor>\<bar>x\<bar>\<rfloor>) - 1
      else - int (bit_length (\<lceil>1 / \<bar>x\<bar>\<rceil> - 1)))"

definition round_half_even :: "real \<Rightarrow> int" where
  "round_half_even y =
     (let f = \<lfloor>y\<rfloor>; d = y - of_int f
      in if d < 1 / 2 then f else if 1 / 2 < d then f + 1 else if even f then f else f + 1)"

definition round_double :: "real \<Rightarrow> double" where
  "round_double x =
     (if x = 0 then Finite 0
      else
        (let q = max (binary_exponent x - 52) (- 1074);
             r = of_int (round_half_even (\<bar>x\<bar> / pow2 q)) * pow2 q
         in if pow2 1024 \<le> r then (if 0 < x then PosInf else NegInf)
            else if r = 0 then (if 0 < x then Finite 0 else NegZero)
            else Finite (if 0 < x then r else - r)))"

fun dbl_value :: "double \<Rightarrow> real" where
  "dbl_value (Finite r) = r"
| "dbl_value _ = 0"

text \<open>\<^verbatim>\<open>a - b\<close>, \<^verbatim>\<open>abs(a)\<close> and \<^verbatim>\<open>a > b\<close> on floats.\<close>

definition dbl_sub :: "double \<Rightarrow> double \<Rightarrow> double" where
  "dbl_sub a b =
     (if a = NaN \<or> b = NaN then NaN
      else if a = PosInf then (if b = PosInf then NaN else PosInf)
      else if a = NegInf then (if b = NegInf then NaN else NegInf)
      else if b = PosInf then NegInf
      else if b = NegInf then PosInf
      else if a = NegZero \<and> b = Finite 0 then NegZero
      else round_double (dbl_value a - dbl_value b))"

fun dbl_abs :: "double \<Rightarrow> double" where
  "dbl_abs (Finite r) = Finite \<bar>r\<bar>"
| "dbl_abs NegZero = Finite 0"
| "dbl_abs PosInf = PosInf"
| "dbl_abs NegInf = PosInf"
| "dbl_abs NaN = NaN"

definition dbl_gt :: "double \<Rightarrow> double \<Rightarrow> bool" where
  "dbl_gt a b =
     (if a = NaN \<or> b = NaN then False
      else if a = PosInf then b \<noteq> PosInf
      else if a = NegInf then False
      else if b = PosInf then False
      else if b = NegInf then True
      else dbl_value b < dbl_value a)"

subsection \<open>Dynamic values and exceptions\<close>

datatype pyval =
  PNone
  | PBool bool
  | PInt int
  | PFloat double
  | PStr pystr
  | PList "pyval list"
  | PDict "(pystr \<times> pyval) list"

datatype py_error = KeyError | TypeError | OverflowError | SendError

text \<open>A client message is a dictionary with string keys; \<^verbatim>\<open>message.get(k, d)\<close>.\<close>

type_synonym message = "pystr \<rightharpoonup> pyval"

definition msg_get :: "message \<Rightarrow> pystr \<Rightarrow> pyval \<Rightarrow> pyval" where
  "msg_get m k d = (case m k of None \<Rightarrow> d | Some v \<Rightarrow> v)"

text \<open>Numbers of Python: \<^verbatim>\<open>int\<close>, \<^verbatim>\<open>float\<close> and \<^verbatim>\<open>bool\<close> (a subclass of \<^verbatim>\<open>int\<close>).\<close>

datatype pynum = NInt int | NFloat double

fun as_num :: "pyval \<Rightarrow> pynum option" where
  "as_num (PInt n) = Some (NInt n)"
| "as_num (PBool b) = Some (NInt (if b then 1 else 0))"
| "as_num (PFloat d) = Some (NFloat d)"
| "as_num _ = None"

text \<open>
  An \<^verbatim>\<open>int\<close> that meets a \<^verbatim>\<open>float\<close> is converted, rounded to the nearest float; one
  too large for a float raises \<^verbatim>\<open>OverflowError\<close>.
\<close>

definition int_to_double :: "int \<Rightarrow> py_error + double" where
  "int_to_double n =
     (case round_double (of_int n) of
        PosInf \<Rightarrow> Inl OverflowError
      | NegInf \<Rightarrow> Inl OverflowError
      | d \<Rightarrow> Inr d)"

fun to_double :: "pynum \<Rightarrow> py_error + double" where
  "to_double (NInt n) = int_to_double n"
| "to_double (NFloat d) = Inr d"

text \<open>
  \<^verbatim>\<open>a - b\<close>: exact on two integers, else the subtraction of floats. \<^verbatim>\<open>abs(a)\<close>.
  \<^verbatim>\<open>a > thr\<close> for a float \<open>thr\<close>: an integer is compared with a float by value.
\<close>

fun num_sub :: "pynum \<Rightarrow> pynum \<Rightarrow> py_error + pynum" where
  "num_sub (NInt a) (NInt b) = Inr (NInt (a - b))"
| "num_sub x y =
     (case to_double x of
        Inl err \<Rightarrow> Inl err
      | Inr a \<Rightarrow> (case to_double y of
          Inl err \<Rightarrow> Inl err
        | Inr b \<Rightarrow> Inr (NFloat (dbl_sub a b))))"

fun num_abs :: "pynum \<Rightarrow> pynum" where
  "num_abs (NInt n) = NInt \<bar>n\<bar>"
| "num_abs (NFloat d) = NFloat (dbl_abs d)"

fun num_gt :: "pynum \<Rightarrow> double \<Rightarrow> bool" where
  "num_gt (NFloat d) thr = dbl_gt d thr"
| "num_gt (NInt n) thr =
     (if thr = NaN \<or> thr = PosInf then False
      else if thr = NegInf then True
      else dbl_value thr < of_int n)"

text \<open>\<^verbatim>\<open>abs(a - b) > thr\<close>: a \<^verbatim>\<open>TypeError\<close> unless both operands are numbers.\<close>

definition drift_exceeds :: "pyval \<Rightarrow> pyval \<Rightarrow> double \<Rightarrow> py_error + bool" where
  "drift_exceeds a b thr =
     (case as_num a of
        None \<Rightarrow> Inl TypeError
      | Some x \<Rightarrow> (case as_num b of
          None \<Rightarrow> Inl TypeError
        | Some y \<Rightarrow> (case num_sub x y of
            Inl err \<Rightarrow> Inl err
          | Inr d \<Rightarrow> Inr (num_gt (num_abs d) thr))))"

text \<open>\<^verbatim>\<open>v[:500]\<close>: the first 500 code points of a string, the first 500 items of a
  list; anything else raises.\<close>

fun py_slice500 :: "pyval \<Rightarrow> py_error + pyval" where
  "py_slice500 (PStr s) = Inr (PStr (take 500 s))"
| "py_slice500 (PList l) = Inr (PList (take 500 l))"
| "py_slice500 _ = Inl TypeError"

text \<open>\<^verbatim>\<open>xs[-n:]\<close> for a non-negative \<open>n\<close> (\<^verbatim>\<open>xs[-0:]\<close> is the whole list).\<close>

definition py_last :: "nat \<Rightarrow> 'a list \<Rightarrow> 'a list" where
  "py_last n xs = (if n = 0 then xs else drop (length xs - n) xs)"

subsection \<open>The data classes\<close>

type_synonym websocket = nat

record PartyMember =
  user_id :: pystr
  username :: pystr
  websocket :: websocket
  is_host :: bool
  joined_at :: pystr
  is_ready :: pyval
  m_current_time :: pyval

record ChatMessage =
  chat_id :: pystr
  chat_user_id :: pystr
  chat_username :: pystr
  chat_message :: pyval
  chat_timestamp :: pystr
  chat_message_type :: pystr

record Potluck =
  party_id :: pystr
  host_id :: pystr
  media_id :: pystr
  media_title :: pystr
  media_type :: pystr
  created_at :: pystr
  is_playing :: bool
  current_time :: pyval
  playback_rate :: double
  members :: "(pystr \<times> PartyMember) list"
  chat_history :: "ChatMessage list"
  max_chat_history :: nat
  require_ready :: bool
  sync_threshold :: double

text \<open>The constructor \<^verbatim>\<open>Potluck(party_id=..., ..., created_at=...)\<close> with its defaults.\<close>

definition new_potluck ::
  "pystr \<Rightarrow> pystr \<Rightarrow> pystr \<Rightarrow> pystr \<Rightarrow> pystr \<Rightarrow> pystr \<Rightarrow> Potluck" where
  "new_potluck pid hid mid mtitle mtype created =
     \<lparr>party_id = pid, host_id = hid, media_id = mid, media_title = mtitle,
      media_type = mtype, created_at = created, is_playing = False,
      current_time = PFloat (Finite 0), playback_rate = Finite 1, members = [],
      chat_history = [],
      max_chat_history = 100, require_ready = True, sync_threshold = Finite 2\<rparr>"

definition add_member :: "Potluck \<Rightarrow> PartyMember \<Rightarrow> Potluck" where
  "add_member p m = p\<lparr>members := AList.update (user_id m) m (members p)\<rparr>"

definition remove_member :: "Potluck \<Rightarrow> pystr \<Rightarrow> PartyMember option \<times> Potluck" where
  "remove_member p uid = (map_of (members p) uid, p\<lparr>members := AList.delete uid (members p)\<rparr>)"

definition get_member_count :: "Potluck \<Rightarrow> nat" where
  "get_member_count p = length (members p)"

definition add_chat_message :: "Potluck \<Rightarrow> ChatMessage \<Rightarrow> Potluck" where
  "add_chat_message p msg =
     (let h = chat_history p @ [msg]
      in p\<lparr>chat_history :=
             (if length h > max_chat_history p then py_last (max_chat_history p) h else h)\<rparr>)"

text \<open>The dictionaries that \<^verbatim>\<open>to_dict\<close> builds.\<close>

datatype member_dict = MemberDict pystr pystr bool pyval

datatype party_dict =
  PartyDict pystr pystr pystr pystr pystr pystr bool pyval double nat "member_dict list" bool

definition to_dict :: "Potluck \<Rightarrow> party_dict" where
  "to_dict p =
     PartyDict (party_id p) (host_id p) (media_id p) (media_title p) (media_type p)
       (created_at p) (is_playing p) (current_time p) (playback_rate p) (get_member_count p)
       (map (\<lambda>m. MemberDict (user_id m) (username m) (is_host m) (is_ready m))
          (map snd (members p)))
       (require_ready p)"

subsection \<open>Outbound messages, the transport and the environment\<close>

text \<open>
  The four dictionaries the manager sends: \<open>Sync is_playing current_time playback_rate
  resync\<close> (the last flag says whether the key \<^verbatim>\<open>resync: True\<close> is there),
  \<open>ChatMsg\<close>, \<open>Reaction user_id username emoji\<close> and \<open>PartyUpdate\<close>.
\<close>

datatype out_msg =
  Sync bool pyval double bool
  | ChatMsg ChatMessage
  | Reaction pystr pystr pyval
  | PartyUpdate party_dict

text \<open>
  What a call of \<^verbatim>\<open>_send_to_member\<close> leaves behind: the message went out, or
  \<^verbatim>\<open>send_json\<close> raised and the failure was logged.
\<close>

datatype effect = Sent websocket out_msg | SendFailed websocket out_msg

fun eff_target :: "effect \<Rightarrow> websocket" where
  "eff_target (Sent ws m) = ws"
| "eff_target (SendFailed ws m) = ws"

fun eff_payload :: "effect \<Rightarrow> out_msg" where
  "eff_payload (Sent ws m) = m"
| "eff_payload (SendFailed ws m) = m"

datatype uuid = UUID (uuid_bytes: "nat list") (uuid_str: pystr)

text \<open>
  The collaborators the manager calls and does not define: \<open>uuid4 n\<close> is the result of
  the \<open>n\<close>-th call of \<^verbatim>\<open>uuid.uuid4()\<close>, \<open>utcnow n\<close> the ISO text of the \<open>n\<close>-th call of
  \<^verbatim>\<open>datetime.now(timezone.utc)\<close>, \<open>send_json ws msg\<close> is the exception that
  \<^verbatim>\<open>websocket.send_json(msg)\<close> raises, if any, and \<open>unicode_upper\<close> is the upper-case
  table of \<^verbatim>\<open>str.upper()\<close> for the code points from 128 on.
\<close>

record env =
  uuid4 :: "nat \<Rightarrow> uuid"
  utcnow :: "nat \<Rightarrow> pystr"
  send_json :: "websocket \<Rightarrow> out_msg \<Rightarrow> py_error option"
  unicode_upper :: "int \<Rightarrow> pystr"

text \<open>
  The state: the two dictionaries of \<^verbatim>\<open>PotluckManager\<close>, every send attempted so far
  (oldest first) and the number of calls made to the two generators.
\<close>

record world =
  parties :: "(pystr \<times> Potluck) list"
  user_party_map :: "(pystr \<times> pystr) list"
  outbox :: "effect list"
  uuid_calls :: nat
  clock_calls :: nat

definition new_manager :: world where
  "new_manager = \<lparr>parties = [], user_party_map = [], outbox = [], uuid_calls = 0, clock_calls = 0\<rparr>"

definition emit :: "effect list \<Rightarrow> world \<Rightarrow> world" where
  "emit es w = w\<lparr>outbox := outbox w @ es\<rparr>"

definition fresh_uuid :: "env \<Rightarrow> world \<Rightarrow> uuid \<times> world" where
  "fresh_uuid e w = (uuid4 e (uuid_calls w), w\<lparr>uuid_calls := Suc (uuid_calls w)\<rparr>)"

definition now :: "env \<Rightarrow> world \<Rightarrow> pystr \<times> world" where
  "now e w = (utcnow e (clock_calls w), w\<lparr>clock_calls := Suc (clock_calls w)\<rparr>)"

text \<open>A party object is shared with the registry: a mutation of it shows under its key.\<close>

definition store :: "pystr \<Rightarrow> Potluck \<Rightarrow> world \<Rightarrow> world" where
  "store pid p w = w\<lparr>parties := AList.update pid p (parties w)\<rparr>"

definition set_member :: "Potluck \<Rightarrow> pystr \<Rightarrow> PartyMember \<Rightarrow> Potluck" where
  "set_member p uid m = p\<lparr>members := AList.update uid m (members p)\<rparr>"

subsection \<open>Fan-out\<close>

text \<open>\<^verbatim>\<open>_send_to_member\<close>: \<^verbatim>\<open>try: await member.websocket.send_json(message)\<close>,
  \<^verbatim>\<open>except Exception\<close>: log and go on.\<close>

definition send_to_member :: "env \<Rightarrow> PartyMember \<Rightarrow> out_msg \<Rightarrow> effect list" where
  "send_to_member e m msg =
     (case send_json e (websocket m) msg of
        None \<Rightarrow> [Sent (websocket m) msg]
      | Some err \<Rightarrow> [SendFailed (websocket m) msg])"

text \<open>\<^verbatim>\<open>if exclude and member.user_id == exclude: continue\<close>: \<^verbatim>\<open>None\<close> and the empty
  string are falsy.\<close>

definition excluded :: "pystr option \<Rightarrow> PartyMember \<Rightarrow> bool" where
  "excluded ex m = (case ex of None \<Rightarrow> False | Some x \<Rightarrow> x \<noteq> [] \<and> user_id m = x)"

fun broadcast_loop :: "env \<Rightarrow> PartyMember list \<Rightarrow> out_msg \<Rightarrow> pystr option \<Rightarrow> effect list" where
  "broadcast_loop e [] msg ex = []"
| "broadcast_loop e (m # ms) msg ex =
     (if excluded ex m then broadcast_loop e ms msg ex
      else send_to_member e m msg @ broadcast_loop e ms msg ex)"

definition broadcast :: "env \<Rightarrow> Potluck \<Rightarrow> out_msg \<Rightarrow> pystr option \<Rightarrow> effect list" where
  "broadcast e p msg ex = broadcast_loop e (map snd (members p)) msg ex"

definition broadcast_party_update :: "env \<Rightarrow> Potluck \<Rightarrow> effect list" where
  "broadcast_party_update e p = broadcast e p (PartyUpdate (to_dict p)) None"

definition send_system_message :: "env \<Rightarrow> Potluck \<Rightarrow> pystr \<Rightarrow> world \<Rightarrow> Potluck \<times> world" where
  "send_system_message e p txt w =
     (let (u, w1) = fresh_uuid e w;
          (ts, w2) = now e w1;
          msg = \<lparr>chat_id = uuid_str u, chat_user_id = (ascii ''system''), chat_username = (ascii ''System''),
                 chat_message = PStr txt, chat_timestamp = ts, chat_message_type = (ascii ''system'')\<rparr>;
          p1 = add_chat_message p msg
      in (p1, emit (broadcast e p1 (ChatMsg msg) None) w2))"

subsection \<open>The registry operations\<close>

definition chars :: pystr where
  "chars = (ascii ''ABCDEFGHJKLMNPQRSTUVWXYZ23456789'')"

definition generate_party_code :: "uuid \<Rightarrow> pystr" where
  "generate_party_code u = map (\<lambda>b. chars ! (b mod length chars)) (take 6 (uuid_bytes u))"

text \<open>
  \<^verbatim>\<open>party_id = generate(); while party_id in self.parties: party_id = generate()\<close>,
  starting at the \<open>n\<close>-th identifier. The loop need not end: the result is \<open>None\<close> when
  it does not, else the code and the number of identifiers drawn so far.
\<close>

partial_function (option) unique_code ::
  "env \<Rightarrow> (pystr \<times> Potluck) list \<Rightarrow> nat \<Rightarrow> (pystr \<times> nat) option" where
  "unique_code e ps n =
     (let c = generate_party_code (uuid4 e n)
      in if map_of ps c \<noteq> None then unique_code e ps (Suc n) else Some (c, Suc n))"

declare unique_code.simps [code]

definition leave_party :: "env \<Rightarrow> world \<Rightarrow> pystr \<Rightarrow> bool \<times> world" where
  "leave_party e w uid =
     (case map_of (user_party_map w) uid of
        None \<Rightarrow> (False, w)
      | Some pid \<Rightarrow>
          (case map_of (parties w) pid of
             None \<Rightarrow> (False, w\<lparr>user_party_map := AList.delete uid (user_party_map w)\<rparr>)
           | Some party \<Rightarrow>
               (let (member, party1) = remove_member party uid;
                    w1 = w\<lparr>user_party_map := AList.delete uid (user_party_map w)\<rparr>;
                    (party2, w2) =
                      (case member of
                         None \<Rightarrow> (party1, w1)
                       | Some m \<Rightarrow>
                           send_system_message e party1 (username m @ (ascii '' left the party'')) w1)
                in if host_id party2 = uid then
                     (case members party2 of
                        [] \<Rightarrow> (True, w2\<lparr>parties := AList.delete pid (parties w2)\<rparr>)
                      | (k, new_host) # rest \<Rightarrow>
                          (let party3 = party2\<lparr>members := (k, new_host\<lparr>is_host := True\<rparr>) # rest,
                                               host_id := user_id new_host\<rparr>;
                               (party4, w3) =
                                 send_system_message e party3
                                   (username new_host @ (ascii '' is now the host'')) w2
                           in (True, emit (broadcast_party_update e party4) (store pid party4 w3))))
                   else (True, emit (broadcast_party_update e party2) (store pid party2 w2)))))"

definition create_party ::
  "env \<Rightarrow> world \<Rightarrow> pystr \<Rightarrow> pystr \<Rightarrow> pystr \<Rightarrow> pystr \<Rightarrow> pystr \<Rightarrow> websocket
   \<Rightarrow> (Potluck \<times> world) option" where
  "create_party e w hid hname mid mtitle mtype ws =
     (let w1 = (if map_of (user_party_map w) hid \<noteq> None then snd (leave_party e w hid) else w)
      in case unique_code e (parties w1) (uuid_calls w1) of
           None \<Rightarrow> None
         | Some (pid, n) \<Rightarrow>
             (let w2 = w1\<lparr>uuid_calls := n\<rparr>;
                  (created, w3) = now e w2;
                  party = new_potluck pid hid mid mtitle mtype created;
                  (joined, w4) = now e w3;
                  host_member = \<lparr>user_id = hid, username = hname, websocket = ws,
                                 is_host = True, joined_at = joined, is_ready = PBool True,
                                 m_current_time = PFloat (Finite 0)\<rparr>;
                  party1 = add_member party host_member;
                  w5 = w4\<lparr>parties := AList.update pid party1 (parties w4),
                          user_party_map := AList.update hid pid (user_party_map w4)\<rparr>;
                  (party2, w6) =
                    send_system_message e party1 (hname @ (ascii '' created the watch party'')) w5
              in Some (party2, store pid party2 w6)))"

definition join_party ::
  "env \<Rightarrow> world \<Rightarrow> pystr \<Rightarrow> pystr \<Rightarrow> pystr \<Rightarrow> websocket
   \<Rightarrow> (py_error + Potluck option) \<times> world" where
  "join_party e w code uid uname ws =
     (let pid = py_upper (unicode_upper e) code
      in if map_of (parties w) pid = None then (Inr None, w)
         else
           (let w1 = (if map_of (user_party_map w) uid \<noteq> None
                      then snd (leave_party e w uid) else w)
            in case map_of (parties w1) pid of
                 None \<Rightarrow> (Inl KeyError, w1)
               | Some party \<Rightarrow>
                   (let (joined, w2) = now e w1;
                        member = \<lparr>user_id = uid, username = uname, websocket = ws,
                                  is_host = False, joined_at = joined, is_ready = PBool False,
                                  m_current_time = PFloat (Finite 0)\<rparr>;
                        party1 = add_member party member;
                        w3 = (store pid party1 w2)
                               \<lparr>user_party_map := AList.update uid pid (user_party_map w2)\<rparr>;
                        w4 = emit (broadcast_party_update e party1) w3;
                        (party2, w5) =
                          send_system_message e party1 (uname @ (ascii '' joined the party'')) w4;
                        w6 = emit (send_to_member e member
                                     (Sync (is_playing party2) (current_time party2)
                                        (playback_rate party2) False)) w5;
                        w7 = emit (concat (map (\<lambda>msg. send_to_member e member (ChatMsg msg))
                                             (py_last 20 (chat_history party2)))) w6
                    in (Inr (Some party2), store pid party2 w7))))"

definition get_party :: "env \<Rightarrow> world \<Rightarrow> pystr \<Rightarrow> Potluck option" where
  "get_party e w code = map_of (parties w) (py_upper (unicode_upper e) code)"

subsection \<open>Event handling\<close>

text \<open>The default of \<^verbatim>\<open>message.get("emoji", ...)\<close>: the three code points that the
  bytes of the source file decode to.\<close>

definition default_emoji :: pystr where
  "default_emoji = [240, 376, 8216]"

definition sync_of :: "Potluck \<Rightarrow> bool \<Rightarrow> out_msg" where
  "sync_of p resync = Sync (is_playing p) (current_time p) (playback_rate p) resync"

definition handle_message ::
  "env \<Rightarrow> world \<Rightarrow> pystr \<Rightarrow> message \<Rightarrow> (py_error + unit) \<times> world" where
  "handle_message e w uid message =
     (case map_of (user_party_map w) uid of
        None \<Rightarrow> (Inr (), w)
      | Some pid \<Rightarrow>
     (case map_of (parties w) pid of
        None \<Rightarrow> (Inr (), w)
      | Some party \<Rightarrow>
     (case map_of (members party) uid of
        None \<Rightarrow> (Inr (), w)
      | Some member \<Rightarrow>
     (let msg_type = message (ascii ''type'') in
      if msg_type = Some (PStr (ascii ''chat'')) then
        (let (u, w1) = fresh_uuid e w
         in case py_slice500 (msg_get message (ascii ''message'') (PStr [])) of
              Inl err \<Rightarrow> (Inl err, w1)
            | Inr body \<Rightarrow>
                (let (ts, w2) = now e w1;
                     chat_msg = \<lparr>chat_id = uuid_str u, chat_user_id = uid,
                                 chat_username = username member, chat_message = body,
                                 chat_timestamp = ts, chat_message_type = (ascii ''chat'')\<rparr>;
                     party1 = add_chat_message party chat_msg
                 in (Inr (), emit (broadcast e party1 (ChatMsg chat_msg) None)
                               (store pid party1 w2))))
      else if msg_type = Some (PStr (ascii ''reaction'')) then
        (Inr (), emit (broadcast e party
                         (Reaction uid (username member)
                            (msg_get message (ascii ''emoji'') (PStr default_emoji))) None) w)
      else if msg_type = Some (PStr (ascii ''ready'')) then
        (let party1 = set_member party uid
                        (member\<lparr>is_ready := msg_get message (ascii ''ready'') (PBool True)\<rparr>)
         in (Inr (), emit (broadcast_party_update e party1) (store pid party1 w)))
      else if msg_type = Some (PStr (ascii ''seek'')) \<and> is_host member then
        (let party1 = party\<lparr>current_time := msg_get message (ascii ''time'') (PInt 0)\<rparr>
         in (Inr (), emit (broadcast e party1 (sync_of party1 False) (Some uid))
                       (store pid party1 w)))
      else if msg_type = Some (PStr (ascii ''play'')) \<and> is_host member then
        (let party1 = party\<lparr>is_playing := True\<rparr>;
             party2 = party1\<lparr>current_time := msg_get message (ascii ''time'') (current_time party1)\<rparr>
         in (Inr (), emit (broadcast e party2
                             (Sync True (current_time party2) (playback_rate party2) False) None)
                       (store pid party2 w)))
      else if msg_type = Some (PStr (ascii ''pause'')) \<and> is_host member then
        (let party1 = party\<lparr>is_playing := False\<rparr>;
             party2 = party1\<lparr>current_time := msg_get message (ascii ''time'') (current_time party1)\<rparr>
         in (Inr (), emit (broadcast e party2
                             (Sync False (current_time party2) (playback_rate party2) False) None)
                       (store pid party2 w)))
      else if msg_type = Some (PStr (ascii ''time_update'')) then
        (let member1 = member\<lparr>m_current_time := msg_get message (ascii ''time'') (PInt 0)\<rparr>;
             party1 = set_member party uid member1;
             w1 = store pid party1 w
         in if is_playing party1 then
              (case drift_exceeds (m_current_time member1) (current_time party1)
                      (sync_threshold party1) of
                 Inl err \<Rightarrow> (Inl err, w1)
               | Inr far \<Rightarrow>
                   if far then (Inr (), emit (send_to_member e member1 (sync_of party1 True)) w1)
                   else (Inr (), w1))
            else (Inr (), w1))
      else (Inr (), w)))))"


subsection \<open>Reachable states and the registry invariant\<close>

text \<open>
  The states the manager can be in: the empty manager, and every state an operation
  leaves behind, whatever its arguments, whatever the environment does, and whether the
  operation returns or raises.
\<close>

inductive reachable :: "world \<Rightarrow> bool" where
  start: "reachable new_manager"
| create: "reachable w \<Longrightarrow> create_party e w hid hname mid mtitle mtype ws = Some (p, w')
    \<Longrightarrow> reachable w'"
| join: "reachable w \<Longrightarrow> reachable (snd (join_party e w code uid uname ws))"
| leave: "reachable w \<Longrightarrow> reachable (snd (leave_party e w uid))"
| handle: "reachable w \<Longrightarrow> reachable (snd (handle_message e w uid message))"

text \<open>
  What the invariant looks at: of a party its code, its host and, for each roster entry,
  the key, the member's own identifier and its host flag.
\<close>

type_synonym skeleton = "pystr \<times> pystr \<times> (pystr \<times> pystr \<times> bool) list"

definition roster :: "(pystr \<times> PartyMember) list \<Rightarrow> (pystr \<times> pystr \<times> bool) list" where
  "roster ms = map (\<lambda>(u, m). (u, user_id m, is_host m)) ms"

definition skeleton :: "Potluck \<Rightarrow> skeleton" where
  "skeleton p = (party_id p, host_id p, roster (members p))"

definition sk :: "world \<Rightarrow> pystr \<Rightarrow> skeleton option" where
  "sk w c = map_option skeleton (map_of (parties w) c)"

text \<open>A code made of the characters that \<open>generate_party_code\<close> draws from.\<close>

definition code_ok :: "pystr \<Rightarrow> bool" where
  "code_ok c \<longleftrightarrow> set c \<subseteq> set chars"

definition skel_ok :: "pystr \<Rightarrow> skeleton \<Rightarrow> bool" where
  "skel_ok c s \<longleftrightarrow>
     (case s of (pid, hid, ros) \<Rightarrow>
        pid = c \<and> code_ok c \<and> distinct (map fst ros) \<and> hid \<in> fst ` set ros
        \<and> (\<forall>(u, i, h) \<in> set ros. i = u \<and> (h \<longleftrightarrow> u = hid)))"

definition registry_ok :: "world \<Rightarrow> bool" where
  "registry_ok w \<longleftrightarrow>
     distinct (map fst (parties w)) \<and> distinct (map fst (user_party_map w))
     \<and> (\<forall>c s. sk w c = Some s \<longrightarrow> skel_ok c s)
     \<and> (\<forall>u c. map_of (user_party_map w) u = Some c \<longleftrightarrow>
           (\<exists>s. sk w c = Some s \<and> u \<in> fst ` set (snd (snd s))))"

text \<open>
  \<^verbatim>\<open>if user_id in self.user_party_map: await self.leave_party(user_id)\<close>, the first
  step of \<open>create_party\<close> and the second of \<open>join_party\<close>.
\<close>

definition after_implicit_leave :: "env \<Rightarrow> world \<Rightarrow> pystr \<Rightarrow> world" where
  "after_implicit_leave e w uid =
     (if map_of (user_party_map w) uid \<noteq> None then snd (leave_party e w uid) else w)"

subsection \<open>Send attempts\<close>

text \<open>
  One send attempt for each member of a list, in order: the message is delivered when
  \<open>send_json\<close> on the member's connection raises nothing, and the failure is recorded
  otherwise.
\<close>

definition attempts :: "env \<Rightarrow> PartyMember list \<Rightarrow> out_msg \<Rightarrow> effect list" where
  "attempts e ms msg =
     map (\<lambda>m. if send_json e (websocket m) msg = None then Sent (websocket m) msg
               else SendFailed (websocket m) msg) ms"

subsection \<open>Positions that are numbers not below zero\<close>

text \<open>
  \<open>position_ok\<close> says that a value is a number and is at least 0. A playback event is a
  seek, play or pause event; its time is acceptable when it is missing or such a number.
  \<open>reachable_nonneg\<close> are the states reached when every playback event handled has an
  acceptable time.
\<close>

text \<open>\<^verbatim>\<open>x >= 0\<close> on a number: \<open>-0.0\<close> and \<open>+inf\<close> pass, a NaN does not.\<close>

fun dbl_ge0 :: "double \<Rightarrow> bool" where
  "dbl_ge0 (Finite r) = (0 \<le> r)"
| "dbl_ge0 NegZero = True"
| "dbl_ge0 PosInf = True"
| "dbl_ge0 NegInf = False"
| "dbl_ge0 NaN = False"

fun num_ge0 :: "pynum \<Rightarrow> bool" where
  "num_ge0 (NInt n) = (0 \<le> n)"
| "num_ge0 (NFloat d) = dbl_ge0 d"

definition position_ok :: "pyval \<Rightarrow> bool" where
  "position_ok v = (case as_num v of None \<Rightarrow> False | Some x \<Rightarrow> num_ge0 x)"

definition playback_event :: "message \<Rightarrow> bool" where
  "playback_event m \<longleftrightarrow>
     m (ascii ''type'') \<in> {Some (PStr (ascii ''seek'')), Some (PStr (ascii ''play'')), Some (PStr (ascii ''pause''))}"

definition time_payload_ok :: "message \<Rightarrow> bool" where
  "time_payload_ok m = (case m (ascii ''time'') of None \<Rightarrow> True | Some v \<Rightarrow> position_ok v)"

inductive reachable_nonneg :: "world \<Rightarrow> bool" where
  start: "reachable_nonneg new_manager"
| create: "reachable_nonneg w \<Longrightarrow> create_party e w hid hname mid mtitle mtype ws = Some (p, w')
    \<Longrightarrow> reachable_nonneg w'"
| join: "reachable_nonneg w \<Longrightarrow> reachable_nonneg (snd (join_party e w code uid uname ws))"
| leave: "reachable_nonneg w \<Longrightarrow> reachable_nonneg (snd (leave_party e w uid))"
| handle: "reachable_nonneg w \<Longrightarrow> (playback_event message \<longrightarrow> time_payload_ok message)
    \<Longrightarrow> reachable_nonneg (snd (handle_message e w uid message))"

definition position_of :: "world \<Rightarrow> pystr \<Rightarrow> pyval option" where
  "position_of w c = map_option current_time (map_of (parties w) c)"

definition positions_ok :: "world \<Rightarrow> bool" where
  "positions_ok w \<longleftrightarrow> (\<forall>c v. position_of w c = Some v \<longrightarrow> position_ok v)"

subsection \<open>A concrete run\<close>

text \<open>
  An environment in which every send succeeds, and the states of a small run: alice
  creates a party (its code is \<open>AAAAAA\<close>), bob joins it under the lower-case code, alice
  presses play at position 10.
\<close>

definition demo_env :: env where
  "demo_env = \<lparr>uuid4 = (\<lambda>n. UUID (replicate 16 n) (ascii ''id'')), utcnow = (\<lambda>n. (ascii ''t'')),
               send_json = (\<lambda>ws msg. None), unicode_upper = (\<lambda>c. [c])\<rparr>"

definition w_alice :: world where
  "w_alice =
     snd (the (create_party demo_env new_manager (ascii ''alice'') (ascii ''Alice'') (ascii ''m1'') (ascii ''Movie X'') (ascii ''movie'') 1))"

definition w_ab :: world where
  "w_ab = snd (join_party demo_env w_alice (ascii ''aaaaaa'') (ascii ''bob'') (ascii ''Bob'') 2)"

definition p_ab :: Potluck where
  "p_ab = the (get_party demo_env w_ab (ascii ''AAAAAA''))"

definition bob_ab :: PartyMember where
  "bob_ab = the (map_of (members p_ab) (ascii ''bob''))"

definition play10 :: message where
  "play10 = [(ascii ''type'') \<mapsto> PStr (ascii ''play''), (ascii ''time'') \<mapsto> PFloat (Finite 10)]"

definition w_play :: world where
  "w_play = snd (handle_message demo_env w_ab (ascii ''alice'') play10)"

definition p_play :: Potluck where
  "p_play = the (get_party demo_env w_play (ascii ''AAAAAA''))"

definition bob_play :: PartyMember where
  "bob_play = the (map_of (members p_play) (ascii ''bob''))"


definition seek5 :: message where
  "seek5 = [(ascii ''type'') \<mapsto> PStr (ascii ''seek''), (ascii ''time'') \<mapsto> PInt 5]"

definition dance :: message where
  "dance = [(ascii ''type'') \<mapsto> PStr (ascii ''dance''), (ascii ''time'') \<mapsto> PInt 5]"

definition p_alice :: Potluck where
  "p_alice =
     fst (the (create_party demo_env new_manager (ascii ''alice'') (ascii ''Alice'') (ascii ''m1'') (ascii ''Movie X'') (ascii ''movie'') 1))"

definition seek_no_time :: message where
  "seek_no_time = [(ascii ''type'') \<mapsto> PStr (ascii ''seek'')]"

text \<open>A third member, carol, and an environment in which the connection of bob is broken.\<close>

definition w_abc :: world where
  "w_abc = snd (join_party demo_env w_ab (ascii ''AAAAAA'') (ascii ''carol'') (ascii ''Carol'') 3)"

definition p_abc :: Potluck where
  "p_abc = the (get_party demo_env w_abc (ascii ''AAAAAA''))"

definition lossy_env :: env where
  "lossy_env = demo_env\<lparr>send_json := (\<lambda>ws msg. if ws = 2 then Some SendError else None)\<rparr>"

definition hello :: out_msg where
  "hello = Reaction (ascii ''alice'') (ascii ''Alice'') (PStr (ascii ''hi''))"

definition alice_play :: PartyMember where
  "alice_play = the (map_of (members p_play) (ascii ''alice''))"

definition seek_back :: message where
  "seek_back = [(ascii ''type'') \<mapsto> PStr (ascii ''seek''), (ascii ''time'') \<mapsto> PFloat (Finite (- 5))]"

definition w_back :: world where
  "w_back = snd (handle_message demo_env w_ab (ascii ''alice'') seek_back)"

section \<open>Properties\<close>

subsection \<open>The concrete run, evaluated\<close>

lemma bob_in_w_ab:
  "map_of (user_party_map w_ab) (ascii ''bob'') = Some (ascii ''AAAAAA'')
   \<and> map_of (parties w_ab) (ascii ''AAAAAA'') = Some p_ab
   \<and> map_of (members p_ab) (ascii ''bob'') = Some bob_ab
   \<and> \<not> is_host bob_ab"
  by code_simp

lemma bob_in_w_play:
  "map_of (user_party_map w_play) (ascii ''bob'') = Some (ascii ''AAAAAA'')
   \<and> map_of (parties w_play) (ascii ''AAAAAA'') = Some p_play
   \<and> map_of (members p_play) (ascii ''bob'') = Some bob_play
   \<and> websocket bob_play = 2"
  by code_simp

lemma alice_in_w_play:
  "map_of (user_party_map w_play) (ascii ''alice'') = Some (ascii ''AAAAAA'')
   \<and> map_of (parties w_play) (ascii ''AAAAAA'') = Some p_play
   \<and> map_of (members p_play) (ascii ''alice'') = Some alice_play
   \<and> is_host alice_play"
  by code_simp

lemma playback_of_p_play:
  "is_playing p_play \<and> current_time p_play = PFloat (Finite 10)
   \<and> playback_rate p_play = Finite 1 \<and> sync_threshold p_play = Finite 2"
  by code_simp

lemma create_alice:
  "create_party demo_env new_manager (ascii ''alice'') (ascii ''Alice'') (ascii ''m1'') (ascii ''Movie X'') (ascii ''movie'') 1 =
     Some (p_alice, w_alice)"
proof -
  have "create_party demo_env new_manager (ascii ''alice'') (ascii ''Alice'') (ascii ''m1'') (ascii ''Movie X'') (ascii ''movie'') 1
      \<noteq> None"
    by code_simp
  then show ?thesis
    by (auto simp add: p_alice_def w_alice_def)
qed

lemma alice_alone_in_w_alice:
  "map_of (parties w_alice) (ascii ''AAAAAA'') = Some p_alice
   \<and> map fst (members p_alice) = [(ascii ''alice'')]
   \<and> party_id p_alice = (ascii ''AAAAAA'')"
  by code_simp

lemma roster_abc:
  "map (\<lambda>m. (user_id m, websocket m)) (map snd (members p_abc)) =
     [((ascii ''alice''), 1), ((ascii ''bob''), 2), ((ascii ''carol''), 3)]"
  by code_simp

lemma reachable_w_alice: "reachable w_alice"
  by (rule reachable.create [OF reachable.start create_alice])

lemma reachable_w_ab: "reachable w_ab"
  unfolding w_ab_def by (rule reachable.join [OF reachable_w_alice])

lemma reachable_w_back: "reachable w_back"
  unfolding w_back_def by (rule reachable.handle [OF reachable_w_ab])

lemma reachable_nonneg_w_play: "reachable_nonneg w_play"
proof -
  have "reachable_nonneg w_alice"
    by (rule reachable_nonneg.create [OF reachable_nonneg.start create_alice])
  then have "reachable_nonneg w_ab"
    unfolding w_ab_def by (rule reachable_nonneg.join)
  moreover have "playback_event play10 \<longrightarrow> time_payload_ok play10"
    by (simp add: play10_def time_payload_ok_def position_ok_def)
  ultimately show ?thesis
    unfolding w_play_def by (rule reachable_nonneg.handle)
qed

subsection \<open>What each operation does to the registry\<close>

lemma ascii_eq_iff [simp]: "ascii a = ascii b \<longleftrightarrow> a = b"
proof -
  have "inj (of_char :: char \<Rightarrow> int)"
    by (rule injI) simp
  then show ?thesis
    by (simp add: ascii_def inj_map_eq_map)
qed

lemma ascii_Nil [simp]: "ascii s = [] \<longleftrightarrow> s = []" "[] = ascii s \<longleftrightarrow> s = []"
  by (auto simp add: ascii_def)

lemma chars_upper: "\<forall>c \<in> set chars. upper_cp tbl c = [c]"
  by (simp add: chars_def ascii_def upper_cp_def)

lemma code_ok_upper:
  assumes "code_ok c"
  shows "py_upper tbl c = c"
  using assms chars_upper [of tbl]
  by (induction c) (auto simp add: code_ok_def py_upper_def)

lemma generate_party_code_ok: "code_ok (generate_party_code u)"
proof -
  have "chars ! (b mod length chars) \<in> set chars" for b
    by (rule nth_mem) (simp add: chars_def ascii_def)
  then show ?thesis
    by (auto simp add: code_ok_def generate_party_code_def)
qed

lemma unique_code_fresh_aux:
  assumes "unique_code e ps n = Some r"
  shows "map_of ps (fst r) = None \<and> code_ok (fst r)"
proof (induction rule: unique_code.raw_induct)
  case (1 loop e ps n r)
  note body = \<open>(let c = generate_party_code (uuid4 e n)
      in if map_of ps c \<noteq> None then loop e ps (Suc n) else Some (c, Suc n)) = Some r\<close>
  show ?case
  proof (cases "map_of ps (generate_party_code (uuid4 e n)) = None")
    case True
    with body have "r = (generate_party_code (uuid4 e n), Suc n)"
      by (simp add: Let_def)
    with True show ?thesis
      by (simp add: generate_party_code_ok)
  next
    case False
    with body have "loop e ps (Suc n) = Some r"
      by (simp add: Let_def)
    then show ?thesis
      by (rule "1.IH")
  qed
qed (fact assms)

lemma unique_code_fresh:
  assumes "unique_code e ps n = Some (c, n')"
  shows "map_of ps c = None" and "code_ok c"
  using unique_code_fresh_aux [OF assms] by simp_all

lemma world_emit [simp]: "parties (emit es w) = parties w"
  "user_party_map (emit es w) = user_party_map w"
  by (simp_all add: emit_def)

lemma world_fresh_uuid [simp]: "parties (snd (fresh_uuid e w)) = parties w"
  "user_party_map (snd (fresh_uuid e w)) = user_party_map w"
  by (simp_all add: fresh_uuid_def)

lemma world_now [simp]: "parties (snd (now e w)) = parties w"
  "user_party_map (snd (now e w)) = user_party_map w"
  by (simp_all add: now_def)

lemma world_store [simp]: "parties (store pid p w) = AList.update pid p (parties w)"
  "user_party_map (store pid p w) = user_party_map w"
  by (simp_all add: store_def)

lemma ssm_party [simp]:
  "members (fst (send_system_message e p txt w)) = members p"
  "host_id (fst (send_system_message e p txt w)) = host_id p"
  "party_id (fst (send_system_message e p txt w)) = party_id p"
  "current_time (fst (send_system_message e p txt w)) = current_time p"
  by (simp_all add: send_system_message_def add_chat_message_def Let_def case_prod_beta)

lemma ssm_world [simp]:
  "parties (snd (send_system_message e p txt w)) = parties w"
  "user_party_map (snd (send_system_message e p txt w)) = user_party_map w"
  by (simp_all add: send_system_message_def Let_def case_prod_beta)

lemma skeleton_simps [simp]:
  "skeleton (add_chat_message p m) = skeleton p"
  "skeleton (p\<lparr>current_time := t\<rparr>) = skeleton p"
  "skeleton (p\<lparr>is_playing := b\<rparr>) = skeleton p"
  "skeleton (fst (send_system_message e p txt w)) = skeleton p"
  by (simp_all add: skeleton_def add_chat_message_def Let_def)

lemma roster_update_same:
  assumes "map_of ms uid = Some m" and "user_id m' = user_id m" and "is_host m' = is_host m"
  shows "roster (AList.update uid m' ms) = roster ms"
  using assms by (induction ms) (auto simp add: roster_def)

lemma skeleton_set_member:
  assumes "map_of (members p) uid = Some m" and "user_id m' = user_id m"
    and "is_host m' = is_host m"
  shows "skeleton (set_member p uid m') = skeleton p"
  using assms by (simp add: skeleton_def set_member_def roster_update_same)

lemma keys_update_present:
  assumes "map_of ps k = Some v"
  shows "map fst (AList.update k v' ps) = map fst ps"
proof -
  from assms have "k \<in> set (map fst ps)"
    by (metis map_of_eq_None_iff option.distinct(1) set_map)
  then show ?thesis
    by (simp add: update_keys)
qed

lemma sk_store_same:
  assumes "map_of (parties w) pid = Some p" and "skeleton p' = skeleton p"
  shows "sk (store pid p' w) = sk w"
  using assms by (auto simp add: sk_def fun_eq_iff update_conv')

lemma sk_frame [simp]:
  "sk (emit es w) = sk w" "sk (snd (fresh_uuid e w)) = sk w" "sk (snd (now e w)) = sk w"
  by (simp_all add: sk_def fun_eq_iff)

lemma registry_ok_cong:
  assumes "map fst (parties w') = map fst (parties w)" and "sk w' = sk w"
    and "user_party_map w' = user_party_map w"
  shows "registry_ok w' = registry_ok w"
  using assms by (simp add: registry_ok_def)

lemma handle_message_upm:
  "user_party_map (snd (handle_message e w uid message)) = user_party_map w"
  by (simp add: handle_message_def Let_def case_prod_beta split: option.splits sum.splits)

lemma handle_message_keys:
  "map fst (parties (snd (handle_message e w uid message))) = map fst (parties w)"
  by (simp add: handle_message_def Let_def case_prod_beta keys_update_present
      split: option.splits sum.splits)

lemma handle_message_sk:
  "sk (snd (handle_message e w uid message)) = sk w"
  by (simp add: handle_message_def Let_def case_prod_beta sk_store_same skeleton_set_member
      split: option.splits sum.splits)

lemma handle_message_registry_ok:
  "registry_ok (snd (handle_message e w uid message)) = registry_ok w"
  by (rule registry_ok_cong) (rule handle_message_keys handle_message_sk handle_message_upm)+


lemma set_delete: "set (AList.delete k al) = {x \<in> set al. fst x \<noteq> k}"
  by (auto simp add: AList.delete_eq)

lemma roster_delete: "roster (AList.delete k ms) = AList.delete k (roster ms)"
  by (induction ms) (auto simp add: roster_def)

lemma roster_keys: "fst ` set (roster ms) = fst ` set ms"
  by (force simp add: roster_def)

lemma skel_ok_remove_member:
  assumes "skel_ok c (c, hid, ros)" and "hid \<noteq> uid"
  shows "skel_ok c (c, hid, AList.delete uid ros)"
  using assms by (auto simp add: skel_ok_def set_delete distinct_delete)

lemma skel_ok_transfer:
  assumes ok: "skel_ok c (c, uid, ros)" and del: "AList.delete uid ros = (k, i, h) # rest"
  shows "skel_ok c (c, i, (k, i, True) # rest)"
proof -
  from ok have d: "distinct (map fst (AList.delete uid ros))"
    by (simp add: skel_ok_def distinct_delete)
  have sub: "x \<in> set ((k, i, h) # rest) \<longleftrightarrow> x \<in> set ros \<and> fst x \<noteq> uid" for x
    using del set_delete [of uid ros] by auto
  from sub [of "(k, i, h)"] have "(k, i, h) \<in> set ros"
    by simp
  with ok have ik: "i = k"
    by (auto simp add: skel_ok_def)
  have r: "u \<noteq> uid \<and> u \<noteq> k \<and> j = u \<and> \<not> b" if "(u, j, b) \<in> set rest" for u j b
  proof -
    from that sub [of "(u, j, b)"] have m: "(u, j, b) \<in> set ros" "u \<noteq> uid"
      by simp_all
    from that d del have "u \<noteq> k"
      by force
    with m ok show ?thesis
      by (auto simp add: skel_ok_def)
  qed
  from d del have "distinct (k # map fst rest)"
    by simp
  with ok ik r show ?thesis
    by (auto simp add: skel_ok_def)
qed

lemma leave_party_upm:
  "user_party_map (snd (leave_party e w uid)) = AList.delete uid (user_party_map w)"
proof (cases "map_of (user_party_map w) uid")
  case None
  then have "uid \<notin> fst ` set (user_party_map w)"
    by (simp add: map_of_eq_None_iff)
  with None show ?thesis
    by (simp add: leave_party_def)
next
  case (Some pid)
  then show ?thesis
    by (simp add: leave_party_def remove_member_def Let_def case_prod_beta
        split: option.splits list.splits)
qed

lemma leave_gone:
  assumes "map_of (user_party_map w) uid = Some pid" and "map_of (parties w) pid = Some party"
    and "host_id party = uid" and "AList.delete uid (members party) = []"
  shows "parties (snd (leave_party e w uid)) = AList.delete pid (parties w)"
  using assms
  by (simp add: leave_party_def remove_member_def Let_def case_prod_beta split: option.splits)

lemma leave_transfer:
  assumes "map_of (user_party_map w) uid = Some pid" and "map_of (parties w) pid = Some party"
    and "host_id party = uid" and "AList.delete uid (members party) = (k, m) # rest"
  shows "map fst (parties (snd (leave_party e w uid))) = map fst (parties w)"
    and "sk (snd (leave_party e w uid)) =
      (sk w)(pid \<mapsto> (party_id party, user_id m, (k, user_id m, True) # roster rest))"
  using assms
  by (simp_all add: leave_party_def remove_member_def Let_def case_prod_beta sk_def fun_eq_iff
      update_conv' skeleton_def keys_update_present roster_def broadcast_party_update_def
      split: option.splits)

lemma leave_member:
  assumes "map_of (user_party_map w) uid = Some pid" and "map_of (parties w) pid = Some party"
    and "host_id party \<noteq> uid"
  shows "map fst (parties (snd (leave_party e w uid))) = map fst (parties w)"
    and "sk (snd (leave_party e w uid)) =
      (sk w)(pid \<mapsto> (party_id party, host_id party, AList.delete uid (roster (members party))))"
  using assms
  by (simp_all add: leave_party_def remove_member_def Let_def case_prod_beta sk_def fun_eq_iff
      update_conv' skeleton_def keys_update_present roster_delete
      split: option.splits)


lemma keys_delete: "fst ` set (AList.delete k al) = fst ` set al - {k}"
  by (force simp add: set_delete)

lemma registry_okD:
  assumes "registry_ok w"
  shows "distinct (map fst (parties w))" and "distinct (map fst (user_party_map w))"
    and "\<And>c s. sk w c = Some s \<Longrightarrow> skel_ok c s"
    and "\<And>u c. map_of (user_party_map w) u = Some c \<longleftrightarrow>
      (\<exists>s. sk w c = Some s \<and> u \<in> fst ` set (snd (snd s)))"
  using assms unfolding registry_ok_def by blast+

lemma registry_ok_member_removed:
  assumes ok: "registry_ok w" and s: "sk w pid = Some (c0, hid, ros)"
    and u: "map_of (user_party_map w) uid = Some pid"
    and keys: "map fst (parties w') = map fst (parties w)"
    and upm: "user_party_map w' = AList.delete uid (user_party_map w)"
    and sk': "sk w' = (sk w)(pid \<mapsto> (c1, h1, ros1))"
    and ok1: "skel_ok pid (c1, h1, ros1)"
    and k1: "fst ` set ros1 = fst ` set ros - {uid}"
  shows "registry_ok w'"
proof -
  note idx = registry_okD(4) [OF ok]
  have a: "distinct (map fst (parties w'))" "distinct (map fst (user_party_map w'))"
    using registry_okD(1,2) [OF ok] keys upm by (simp_all add: distinct_delete)
  have b: "skel_ok c t" if "sk w' c = Some t" for c t
    using that registry_okD(3) [OF ok, of c t] ok1 sk' by (cases "c = pid") auto
  have c: "map_of (user_party_map w') v = Some c \<longleftrightarrow>
      (\<exists>t. sk w' c = Some t \<and> v \<in> fst ` set (snd (snd t)))" for v c
  proof (cases "v = uid")
    case True
    have "\<not> (\<exists>t. sk w' c = Some t \<and> uid \<in> fst ` set (snd (snd t)))"
    proof (cases "c = pid")
      case True
      with sk' k1 show ?thesis by simp
    next
      case False
      with sk' idx [of uid c] u show ?thesis by simp
    qed
    with True upm show ?thesis
      by (simp add: delete_conv')
  next
    case False
    show ?thesis
    proof (cases "c = pid")
      case True
      with False sk' k1 s idx [of v pid] upm show ?thesis
        by (simp add: delete_conv')
    next
      case c: False
      with False sk' idx [of v c] upm show ?thesis
        by (simp add: delete_conv')
    qed
  qed
  from a b c show ?thesis
    unfolding registry_ok_def by blast
qed

lemma registry_ok_session_removed:
  assumes ok: "registry_ok w" and s: "sk w pid = Some (c0, hid, ros)"
    and u: "map_of (user_party_map w) uid = Some pid"
    and only: "fst ` set ros \<subseteq> {uid}"
    and ps: "parties w' = AList.delete pid (parties w)"
    and upm: "user_party_map w' = AList.delete uid (user_party_map w)"
  shows "registry_ok w'"
proof -
  note idx = registry_okD(4) [OF ok]
  have sk': "sk w' = (sk w)(pid := None)"
    using ps by (simp add: sk_def fun_eq_iff delete_conv')
  have a: "distinct (map fst (parties w'))" "distinct (map fst (user_party_map w'))"
    using registry_okD(1,2) [OF ok] ps upm by (simp_all add: distinct_delete)
  have b: "skel_ok c t" if "sk w' c = Some t" for c t
    using that registry_okD(3) [OF ok, of c t] sk' by (cases "c = pid") auto
  have c: "map_of (user_party_map w') v = Some c \<longleftrightarrow>
      (\<exists>t. sk w' c = Some t \<and> v \<in> fst ` set (snd (snd t)))" for v c
  proof (cases "v = uid")
    case True
    have "\<not> (\<exists>t. sk w' c = Some t \<and> uid \<in> fst ` set (snd (snd t)))"
    proof (cases "c = pid")
      case True
      with sk' show ?thesis by simp
    next
      case False
      with sk' idx [of uid c] u show ?thesis by simp
    qed
    with True upm show ?thesis
      by (simp add: delete_conv')
  next
    case False
    show ?thesis
    proof (cases "c = pid")
      case True
      with False sk' only s idx [of v pid] upm show ?thesis
        by (auto simp add: delete_conv')
    next
      case c: False
      with False sk' idx [of v c] upm show ?thesis
        by (simp add: delete_conv')
    qed
  qed
  from a b c show ?thesis
    unfolding registry_ok_def by blast
qed

lemma leave_party_registry_ok:
  assumes ok: "registry_ok w"
  shows "registry_ok (snd (leave_party e w uid))"
proof (cases "map_of (user_party_map w) uid")
  case None
  with ok show ?thesis
    by (simp add: leave_party_def)
next
  case (Some pid)
  with registry_okD(4) [OF ok, of uid pid]
  obtain s where s: "sk w pid = Some s" "uid \<in> fst ` set (snd (snd s))"
    by blast
  then obtain party where p: "map_of (parties w) pid = Some party" "s = skeleton party"
    by (auto simp add: sk_def)
  from s(1) have sok: "skel_ok pid s"
    by (rule registry_okD(3) [OF ok])
  from sok p have pid: "party_id party = pid"
    by (simp add: skel_ok_def skeleton_def)
  from s p have sk0: "sk w pid = Some (party_id party, host_id party, roster (members party))"
    by (simp add: skeleton_def)
  note upm = leave_party_upm [of e w uid]
  show ?thesis
  proof (cases "host_id party = uid")
    case False
    from sok p pid False
    have ok1: "skel_ok pid
        (party_id party, host_id party, AList.delete uid (roster (members party)))"
      by (simp add: skeleton_def skel_ok_remove_member)
    show ?thesis
      by (rule registry_ok_member_removed [OF ok sk0 Some leave_member(1) upm leave_member(2)
            ok1 keys_delete]) (rule Some p(1) False)+
  next
    case True
    show ?thesis
    proof (cases "AList.delete uid (members party)")
      case Nil
      then have "fst ` set (AList.delete uid (members party)) = {}"
        by simp
      then have "fst ` set (roster (members party)) \<subseteq> {uid}"
        by (simp add: keys_delete roster_keys)
      then show ?thesis
        by (rule registry_ok_session_removed [OF ok sk0 Some _ leave_gone upm])
          (rule Some p(1) True Nil)+
    next
      case (Cons km rest)
      obtain k m where km: "km = (k, m)"
        by (cases km)
      with Cons have del: "AList.delete uid (members party) = (k, m) # rest"
        by simp
      then have rdel: "AList.delete uid (roster (members party)) =
          (k, user_id m, is_host m) # roster rest"
        by (simp add: roster_delete [symmetric]) (simp add: roster_def)
      from sok p pid True
      have "skel_ok pid (pid, uid, roster (members party))"
        by (simp add: skeleton_def)
      from skel_ok_transfer [OF this rdel] pid
      have ok1: "skel_ok pid (party_id party, user_id m, (k, user_id m, True) # roster rest)"
        by simp
      have "fst ` set ((k, user_id m, True) # roster rest) =
          fst ` set (AList.delete uid (roster (members party)))"
        by (simp add: rdel)
      then have k1: "fst ` set ((k, user_id m, True) # roster rest) =
          fst ` set (roster (members party)) - {uid}"
        by (simp only: keys_delete)
      show ?thesis
        by (rule registry_ok_member_removed [OF ok sk0 Some leave_transfer(1) upm
              leave_transfer(2) ok1 k1]) (rule Some p(1) True del)+
    qed
  qed
qed


lemma roster_update:
  "roster (AList.update k m ms) = AList.update k (user_id m, is_host m) (roster ms)"
  by (induction ms) (auto simp add: roster_def)

lemma update_absent: "k \<notin> fst ` set al \<Longrightarrow> AList.update k v al = al @ [(k, v)]"
  by (induction al) auto

lemma registry_ok_member_added:
  assumes ok: "registry_ok w" and s: "sk w pid = Some (c0, hid, ros)"
    and u: "map_of (user_party_map w) uid = None"
    and keys: "map fst (parties w') = map fst (parties w)"
    and upm: "user_party_map w' = AList.update uid pid (user_party_map w)"
    and sk': "sk w' = (sk w)(pid \<mapsto> (c0, hid, AList.update uid (uid, False) ros))"
  shows "registry_ok w'"
proof -
  note idx = registry_okD(4) [OF ok]
  from idx [of uid] u have nowhere: "uid \<notin> fst ` set (snd (snd t))" if "sk w c = Some t" for c t
    using that by (metis option.distinct(1))
  from nowhere [OF s] have fresh: "uid \<notin> fst ` set ros"
    by simp
  then have app: "AList.update uid (uid, False) ros = ros @ [(uid, uid, False)]"
    by (rule update_absent)
  from registry_okD(3) [OF ok s] have sok: "skel_ok pid (c0, hid, ros)" .
  with fresh have ok1: "skel_ok pid (c0, hid, AList.update uid (uid, False) ros)"
    unfolding app by (auto simp add: skel_ok_def)
  have a: "distinct (map fst (parties w'))" "distinct (map fst (user_party_map w'))"
    using registry_okD(1,2) [OF ok] keys upm by (simp_all add: distinct_update)
  have b: "skel_ok c t" if "sk w' c = Some t" for c t
    using that registry_okD(3) [OF ok, of c t] ok1 sk' by (cases "c = pid") auto
  have c: "map_of (user_party_map w') v = Some c \<longleftrightarrow>
      (\<exists>t. sk w' c = Some t \<and> v \<in> fst ` set (snd (snd t)))" for v c
  proof (cases "c = pid")
    case True
    with sk' s idx [of v pid] upm u show ?thesis
      by (cases "v = uid") (simp_all add: update_conv' app)
  next
    case False
    show ?thesis
    proof (cases "v = uid")
      case True
      from nowhere [of c]
      have "\<not> (\<exists>t. sk w c = Some t \<and> uid \<in> fst ` set (snd (snd t)))"
        by blast
      with True False sk' upm show ?thesis
        by (simp add: update_conv')
    next
      case v: False
      with False sk' idx [of v c] upm show ?thesis
        by (simp add: update_conv')
    qed
  qed
  from a b c show ?thesis
    unfolding registry_ok_def by blast
qed

lemma registry_ok_session_added:
  assumes ok: "registry_ok w" and u: "map_of (user_party_map w) hid = None"
    and fresh: "map_of (parties w) pid = None" and up: "code_ok pid"
    and keys: "map fst (parties w') = map fst (parties w) @ [pid]"
    and upm: "user_party_map w' = AList.update hid pid (user_party_map w)"
    and sk': "sk w' = (sk w)(pid \<mapsto> (pid, hid, [(hid, hid, True)]))"
  shows "registry_ok w'"
proof -
  note idx = registry_okD(4) [OF ok]
  from idx [of hid] u have nowhere: "hid \<notin> fst ` set (snd (snd t))" if "sk w c = Some t" for c t
    using that by (metis option.distinct(1))
  from fresh have s0: "sk w pid = None"
    by (simp add: sk_def)
  from fresh have "pid \<notin> set (map fst (parties w))"
    by (simp add: map_of_eq_None_iff)
  then have a: "distinct (map fst (parties w'))" "distinct (map fst (user_party_map w'))"
    using registry_okD(1,2) [OF ok] keys upm by (simp_all add: distinct_update)
  from up have ok1: "skel_ok pid (pid, hid, [(hid, hid, True)])"
    by (simp add: skel_ok_def)
  have b: "skel_ok c t" if "sk w' c = Some t" for c t
    using that registry_okD(3) [OF ok, of c t] ok1 sk' by (cases "c = pid") auto
  have c: "map_of (user_party_map w') v = Some c \<longleftrightarrow>
      (\<exists>t. sk w' c = Some t \<and> v \<in> fst ` set (snd (snd t)))" for v c
  proof (cases "c = pid")
    case True
    with sk' s0 idx [of v pid] upm u show ?thesis
      by (cases "v = hid") (simp_all add: update_conv')
  next
    case False
    show ?thesis
    proof (cases "v = hid")
      case True
      from nowhere [of c]
      have "\<not> (\<exists>t. sk w c = Some t \<and> hid \<in> fst ` set (snd (snd t)))"
        by blast
      with True False sk' upm show ?thesis
        by (simp add: update_conv')
    next
      case v: False
      with False sk' idx [of v c] upm show ?thesis
        by (simp add: update_conv')
    qed
  qed
  from a b c show ?thesis
    unfolding registry_ok_def by blast
qed

lemma after_implicit_leave_ok:
  assumes "registry_ok w"
  shows "registry_ok (after_implicit_leave e w uid)"
    and "map_of (user_party_map (after_implicit_leave e w uid)) uid = None"
  using assms
  by (auto simp add: after_implicit_leave_def leave_party_registry_ok leave_party_upm
      delete_conv')

lemma join_not_found:
  assumes "map_of (parties w) (py_upper (unicode_upper e) code) = None"
  shows "join_party e w code uid uname ws = (Inr None, w)"
  using assms by (simp add: join_party_def)

lemma join_key_error:
  assumes "map_of (parties w) (py_upper (unicode_upper e) code) \<noteq> None"
    and "map_of (parties (after_implicit_leave e w uid)) (py_upper (unicode_upper e) code) = None"
  shows "join_party e w code uid uname ws = (Inl KeyError, after_implicit_leave e w uid)"
  using assms by (auto simp add: join_party_def after_implicit_leave_def Let_def)

lemma join_found:
  assumes "map_of (parties w) (py_upper (unicode_upper e) code) \<noteq> None"
    and "map_of (parties (after_implicit_leave e w uid)) (py_upper (unicode_upper e) code) = Some party"
  shows "user_party_map (snd (join_party e w code uid uname ws)) =
      AList.update uid (py_upper (unicode_upper e) code) (user_party_map (after_implicit_leave e w uid))"
    and "map fst (parties (snd (join_party e w code uid uname ws))) =
      map fst (parties (after_implicit_leave e w uid))"
    and "sk (snd (join_party e w code uid uname ws)) =
      (sk (after_implicit_leave e w uid))(py_upper (unicode_upper e) code \<mapsto>
        (party_id party, host_id party, AList.update uid (uid, False) (roster (members party))))"
    and "\<exists>p. fst (join_party e w code uid uname ws) = Inr (Some p)"
  using assms
  by (auto simp add: join_party_def after_implicit_leave_def Let_def case_prod_beta
      add_member_def sk_def fun_eq_iff update_conv' skeleton_def roster_update
      keys_update_present)

lemma join_party_registry_ok:
  assumes ok: "registry_ok w"
  shows "registry_ok (snd (join_party e w code uid uname ws))"
proof (cases "map_of (parties w) (py_upper (unicode_upper e) code) = None")
  case True
  with ok show ?thesis
    by (simp add: join_not_found)
next
  case False
  note l = after_implicit_leave_ok [OF ok, of e uid]
  show ?thesis
  proof (cases "map_of (parties (after_implicit_leave e w uid)) (py_upper (unicode_upper e) code)")
    case None
    with False l show ?thesis
      by (simp add: join_key_error)
  next
    case (Some party)
    then have s: "sk (after_implicit_leave e w uid) (py_upper (unicode_upper e) code) =
        Some (party_id party, host_id party, roster (members party))"
      by (simp add: sk_def skeleton_def)
    show ?thesis
      by (rule registry_ok_member_added [OF l(1) s l(2) join_found(2) join_found(1)
            join_found(3)]) (rule False Some)+
  qed
qed


lemma create_party_effect:
  assumes "create_party e w hid hname mid mtitle mtype ws = Some (p, w')"
  obtains pid where "map_of (parties (after_implicit_leave e w hid)) pid = None"
    and "code_ok pid"
    and "map fst (parties w') = map fst (parties (after_implicit_leave e w hid)) @ [pid]"
    and "user_party_map w' = AList.update hid pid (user_party_map (after_implicit_leave e w hid))"
    and "sk w' = (sk (after_implicit_leave e w hid))(pid \<mapsto> (pid, hid, [(hid, hid, True)]))"
proof -
  define w1 where "w1 = after_implicit_leave e w hid"
  from assms obtain pid n where uc: "unique_code e (parties w1) (uuid_calls w1) = Some (pid, n)"
    by (auto simp add: create_party_def Let_def after_implicit_leave_def w1_def
        split: option.splits)
  note fresh = unique_code_fresh [OF uc]
  from fresh(1) have nk: "pid \<notin> set (map fst (parties w1))"
    by (simp add: map_of_eq_None_iff)
  from assms uc have w': "w' = snd (the (create_party e w hid hname mid mtitle mtype ws))"
    by simp
  have w1: "w1 = (if map_of (user_party_map w) hid \<noteq> None then snd (leave_party e w hid) else w)"
    by (simp add: w1_def after_implicit_leave_def)
  have k: "map fst (parties w') = map fst (parties w1) @ [pid]"
    unfolding w' create_party_def Let_def w1 [symmetric] using uc nk
    by (simp add: case_prod_beta update_keys)
  have u: "user_party_map w' = AList.update hid pid (user_party_map w1)"
    unfolding w' create_party_def Let_def w1 [symmetric] using uc
    by (simp add: case_prod_beta)
  have s: "sk w' = (sk w1)(pid \<mapsto> (pid, hid, [(hid, hid, True)]))"
    unfolding w' create_party_def Let_def w1 [symmetric] using uc
    by (simp add: case_prod_beta sk_def fun_eq_iff update_conv' skeleton_def roster_def
        add_member_def new_potluck_def)
  from fresh k u s show ?thesis
    unfolding w1_def by (rule that)
qed

lemma create_party_registry_ok:
  assumes ok: "registry_ok w"
    and c: "create_party e w hid hname mid mtitle mtype ws = Some (p, w')"
  shows "registry_ok w'"
proof -
  note l = after_implicit_leave_ok [OF ok, of e hid]
  from c obtain pid where "map_of (parties (after_implicit_leave e w hid)) pid = None"
    and "code_ok pid"
    and "map fst (parties w') = map fst (parties (after_implicit_leave e w hid)) @ [pid]"
    and "user_party_map w' = AList.update hid pid (user_party_map (after_implicit_leave e w hid))"
    and "sk w' = (sk (after_implicit_leave e w hid))(pid \<mapsto> (pid, hid, [(hid, hid, True)]))"
    by (rule create_party_effect)
  with l show ?thesis
    by (rule registry_ok_session_added)
qed

lemma new_manager_registry_ok: "registry_ok new_manager"
  by (simp add: registry_ok_def new_manager_def sk_def)

lemma reachable_registry_ok:
  assumes "reachable w"
  shows "registry_ok w"
  using assms
proof (induction rule: reachable.induct)
  case start
  show ?case by (rule new_manager_registry_ok)
next
  case (create w e hid hname mid mtitle mtype ws p w')
  then show ?case by (blast intro: create_party_registry_ok)
next
  case (join w e code uid uname ws)
  from join.IH show ?case by (rule join_party_registry_ok)
next
  case (leave w e uid)
  from leave.IH show ?case by (rule leave_party_registry_ok)
next
  case (handle w e uid message)
  then show ?case by (simp add: handle_message_registry_ok)
qed

lemma count_key:
  assumes "distinct (map fst xs)" and "k \<in> fst ` set xs"
  shows "length (filter (\<lambda>x. fst x = k) xs) = 1"
  using assms
proof (induction xs)
  case Nil
  then show ?case by simp
next
  case (Cons x xs)
  show ?case
  proof (cases "fst x = k")
    case True
    from Cons.prems(1) have "fst x \<notin> fst ` set xs"
      by simp
    then have "\<forall>y \<in> set xs. fst y \<noteq> fst x"
      by (metis imageI)
    with True have "\<forall>y \<in> set xs. fst y \<noteq> k"
      by simp
    then have "filter (\<lambda>x. fst x = k) xs = []"
      by (simp add: filter_empty_conv)
    with True show ?thesis by simp
  next
    case False
    with Cons show ?thesis by auto
  qed
qed

lemma hosts_of_roster:
  "length (filter is_host (map snd ms)) = length (filter (\<lambda>x. snd (snd x)) (roster ms))"
  by (induction ms) (auto simp add: roster_def)

lemma registered_party_ok:
  assumes "registry_ok w" and "map_of (parties w) c = Some p"
  shows "skel_ok c (skeleton p)"
  using assms registry_okD(3) [of w c "skeleton p"] by (simp add: sk_def)

lemma handle_message_no_member:
  assumes "\<not> (\<exists>pid party member. map_of (user_party_map w) uid = Some pid
      \<and> map_of (parties w) pid = Some party \<and> map_of (members party) uid = Some member)"
  shows "handle_message e w uid message = (Inr (), w)"
  using assms by (auto simp add: handle_message_def split: option.splits)

lemma positions_ok_frame [simp]:
  "positions_ok (emit es w) = positions_ok w"
  "positions_ok (snd (fresh_uuid e w)) = positions_ok w"
  "positions_ok (snd (now e w)) = positions_ok w"
  by (simp_all add: positions_ok_def position_of_def)

lemma positions_ok_store:
  assumes "positions_ok w" and "position_ok (current_time p)"
  shows "positions_ok (store pid p w)"
  using assms by (auto simp add: positions_ok_def position_of_def update_conv')

lemma positions_ok_shrink:
  assumes "positions_ok w" and "\<And>c. position_of w' c = None \<or> position_of w' c = position_of w c"
  shows "positions_ok w'"
  unfolding positions_ok_def
proof (intro allI impI)
  fix c v
  assume "position_of w' c = Some v"
  with assms(2) [of c] have "position_of w c = Some v"
    by auto
  with assms(1) show "position_ok v"
    by (simp add: positions_ok_def)
qed

lemma current_time_simps [simp]:
  "current_time (add_chat_message p m) = current_time p"
  "current_time (set_member p uid m') = current_time p"
  by (simp_all add: add_chat_message_def set_member_def Let_def)

lemma handle_message_positions_ok:
  assumes ok: "positions_ok w" and t: "playback_event message \<longrightarrow> time_payload_ok message"
  shows "positions_ok (snd (handle_message e w uid message))"
proof (cases "\<exists>pid party member. map_of (user_party_map w) uid = Some pid
      \<and> map_of (parties w) pid = Some party \<and> map_of (members party) uid = Some member")
  case False
  with ok show ?thesis
    by (simp add: handle_message_no_member)
next
  case True
  then obtain pid party member where l: "map_of (user_party_map w) uid = Some pid"
    "map_of (parties w) pid = Some party" "map_of (members party) uid = Some member"
    by blast
  from ok l(2) have cur: "position_ok (current_time party)"
    by (auto simp add: positions_ok_def position_of_def)
  have tv: "position_ok (msg_get message (ascii ''time'') d)" if "playback_event message" "position_ok d" for d
    using that t by (simp add: time_payload_ok_def msg_get_def split: option.splits)
  have pe: "playback_event message" if "message (ascii ''type'') = Some (PStr (ascii ''seek''))
      \<or> message (ascii ''type'') = Some (PStr (ascii ''play'')) \<or> message (ascii ''type'') = Some (PStr (ascii ''pause''))"
    using that by (auto simp add: playback_event_def)
  have z: "position_ok (PInt 0)"
    by (simp add: position_ok_def)
  from ok l cur z show ?thesis
    by (simp add: handle_message_def Let_def case_prod_beta positions_ok_store
        tv pe split: sum.splits)
qed


lemma leave_party_pos:
  "position_of (snd (leave_party e w uid)) c = None \<or> position_of (snd (leave_party e w uid)) c = position_of w c"
proof (cases "map_of (user_party_map w) uid")
  case None
  then show ?thesis
    by (simp add: leave_party_def)
next
  case (Some pid)
  show ?thesis
  proof (cases "map_of (parties w) pid")
    case None
    with Some show ?thesis
      by (simp add: leave_party_def position_of_def)
  next
    case (Some party)
    with \<open>map_of (user_party_map w) uid = Some pid\<close> show ?thesis
      by (simp add: leave_party_def remove_member_def Let_def case_prod_beta position_of_def
          update_conv' delete_conv' split: option.splits list.splits)
  qed
qed

lemma leave_party_positions_ok:
  assumes "positions_ok w"
  shows "positions_ok (snd (leave_party e w uid))"
  using assms leave_party_pos by (rule positions_ok_shrink)

lemma after_implicit_leave_positions_ok:
  assumes "positions_ok w"
  shows "positions_ok (after_implicit_leave e w uid)"
  using assms by (simp add: after_implicit_leave_def leave_party_positions_ok)

lemma join_party_positions_ok:
  assumes ok: "positions_ok w"
  shows "positions_ok (snd (join_party e w code uid uname ws))"
proof (cases "map_of (parties w) (py_upper (unicode_upper e) code) = None")
  case True
  with ok show ?thesis
    by (simp add: join_not_found)
next
  case False
  note l = after_implicit_leave_positions_ok [OF ok, of e uid]
  show ?thesis
  proof (cases "map_of (parties (after_implicit_leave e w uid)) (py_upper (unicode_upper e) code)")
    case None
    with False l show ?thesis
      by (simp add: join_key_error)
  next
    case (Some party)
    have "position_of (snd (join_party e w code uid uname ws)) c = position_of (after_implicit_leave e w uid) c"
      for c
      using False Some
      by (auto simp add: join_party_def after_implicit_leave_def Let_def case_prod_beta
          add_member_def position_of_def update_conv')
    with l show ?thesis
      by (simp add: positions_ok_def)
  qed
qed

lemma create_party_positions_ok:
  assumes ok: "positions_ok w"
    and c: "create_party e w hid hname mid mtitle mtype ws = Some (p, w')"
  shows "positions_ok w'"
proof -
  define w1 where "w1 = after_implicit_leave e w hid"
  have w1: "w1 = (if map_of (user_party_map w) hid \<noteq> None then snd (leave_party e w hid) else w)"
    by (simp add: w1_def after_implicit_leave_def)
  from c obtain pid n where uc: "unique_code e (parties w1) (uuid_calls w1) = Some (pid, n)"
    by (auto simp add: create_party_def Let_def w1 split: option.splits)
  from c uc have w': "w' = snd (the (create_party e w hid hname mid mtitle mtype ws))"
    by simp
  have "position_of w' = (position_of w1)(pid \<mapsto> PFloat (Finite 0))"
    unfolding w' create_party_def Let_def w1 [symmetric] using uc
    by (simp add: case_prod_beta position_of_def fun_eq_iff update_conv' add_member_def new_potluck_def)
  moreover from ok have "positions_ok w1"
    unfolding w1_def by (rule after_implicit_leave_positions_ok)
  ultimately show ?thesis
    by (simp add: positions_ok_def position_ok_def)
qed

lemma reachable_nonneg_positions_ok:
  assumes "reachable_nonneg w"
  shows "positions_ok w"
  using assms
proof (induction rule: reachable_nonneg.induct)
  case start
  show ?case by (simp add: positions_ok_def position_of_def new_manager_def)
next
  case (create w e hid hname mid mtitle mtype ws p w')
  then show ?case by (blast intro: create_party_positions_ok)
next
  case (join w e code uid uname ws)
  from join.IH show ?case by (rule join_party_positions_ok)
next
  case (leave w e uid)
  from leave.IH show ?case by (rule leave_party_positions_ok)
next
  case (handle w message e uid)
  then show ?case by (simp add: handle_message_positions_ok)
qed

lemma excluded_None [simp]: "excluded None m = False"
  by (simp add: excluded_def)

lemma broadcast_loop_eq:
  "broadcast_loop e ms msg ex =
     map (\<lambda>m. if send_json e (websocket m) msg = None then Sent (websocket m) msg
               else SendFailed (websocket m) msg)
       (filter (\<lambda>m. \<not> excluded ex m) ms)"
  by (induction ms) (auto simp add: send_to_member_def split: option.splits)

lemma broadcast_attempts:
  "broadcast e p msg ex = attempts e (filter (\<lambda>m. \<not> excluded ex m) (map snd (members p))) msg"
  by (simp add: broadcast_def broadcast_loop_eq attempts_def)

lemma send_to_member_attempts: "send_to_member e m msg = attempts e [m] msg"
  by (cases "send_json e (websocket m) msg") (simp_all add: send_to_member_def attempts_def)

lemma members_add_chat_message [simp]: "members (add_chat_message p m) = members p"
  by (simp add: add_chat_message_def Let_def)

subsection \<open>The registry invariants\<close>

text \<open>
  C1. In every reachable state, every registered session has a roster that is not empty,
  and exactly one of its members has the host flag. As the states reachable are closed
  under create\_party, join\_party, leave\_party and handle\_message with any event, every
  operation preserves this.
\<close>

theorem C1_exactly_one_host:
  assumes "reachable w" and "map_of (parties w) c = Some p"
  shows "members p \<noteq> [] \<and> length (filter is_host (map snd (members p))) = 1"
proof -
  have ok: "skel_ok c (skeleton p)"
    by (rule registered_party_ok [OF reachable_registry_ok]) (rule assms)+
  then have d: "distinct (map fst (roster (members p)))"
    and h: "host_id p \<in> fst ` set (roster (members p))"
    and f: "\<forall>x \<in> set (roster (members p)). snd (snd x) \<longleftrightarrow> fst x = host_id p"
    by (auto simp add: skel_ok_def skeleton_def)
  from f have "filter (\<lambda>x. snd (snd x)) (roster (members p)) =
      filter (\<lambda>x. fst x = host_id p) (roster (members p))"
    by (auto intro: filter_cong)
  then have "length (filter is_host (map snd (members p))) =
      length (filter (\<lambda>x. fst x = host_id p) (roster (members p)))"
    by (simp only: hosts_of_roster)
  also have "\<dots> = 1"
    by (rule count_key [OF d h])
  finally have "length (filter is_host (map snd (members p))) = 1" .
  moreover from h have "members p \<noteq> []"
    by (auto simp add: roster_def)
  ultimately show ?thesis by simp
qed

theorem C1_witness:
  "reachable w_ab \<and> map_of (parties w_ab) (ascii ''AAAAAA'') = Some p_ab
   \<and> members p_ab \<noteq> [] \<and> length (filter is_host (map snd (members p_ab))) = 1"
proof -
  from bob_in_w_ab have l: "map_of (parties w_ab) (ascii ''AAAAAA'') = Some p_ab"
    by simp
  from C1_exactly_one_host [OF reachable_w_ab l] reachable_w_ab l show ?thesis
    by simp
qed

text \<open>
  C2. In every reachable state the index and the rosters agree: a participant that the
  index maps to a code is a key of the roster of the session registered under that code,
  and a key of the roster of a registered session is mapped by the index to the code of
  that session.
\<close>

theorem C2_index_agrees_with_rosters:
  assumes "reachable w"
  shows "(map_of (user_party_map w) u = Some c \<longrightarrow>
            (\<exists>p. map_of (parties w) c = Some p \<and> u \<in> fst ` set (members p)))
       \<and> (map_of (parties w) c = Some p \<and> u \<in> fst ` set (members p) \<longrightarrow>
            map_of (user_party_map w) u = Some c)"
proof -
  from assms have ok: "registry_ok w"
    by (rule reachable_registry_ok)
  have "(\<exists>s. sk w c = Some s \<and> u \<in> fst ` set (snd (snd s))) \<longleftrightarrow>
      (\<exists>p. map_of (parties w) c = Some p \<and> u \<in> fst ` set (members p))"
    by (cases "map_of (parties w) c") (simp_all add: sk_def skeleton_def roster_keys)
  with registry_okD(4) [OF ok, of u c] show ?thesis
    by auto
qed

theorem C2_witness:
  "reachable w_ab
   \<and> map_of (user_party_map w_ab) (ascii ''bob'') = Some (ascii ''AAAAAA'')
   \<and> map_of (parties w_ab) (ascii ''AAAAAA'') = Some p_ab \<and> (ascii ''bob'') \<in> fst ` set (members p_ab)"
proof -
  from bob_in_w_ab have l: "map_of (user_party_map w_ab) (ascii ''bob'') = Some (ascii ''AAAAAA'')"
    "map_of (parties w_ab) (ascii ''AAAAAA'') = Some p_ab"
    by simp_all
  from C2_index_agrees_with_rosters [OF reachable_w_ab, of "(ascii ''bob'')" "(ascii ''AAAAAA'')" p_ab] l
  have "(ascii ''bob'') \<in> fst ` set (members p_ab)"
    by auto
  with reachable_w_ab l show ?thesis
    by simp
qed

text \<open>
  C8. In a reachable state, when the only member of a registered session leaves, the
  call returns true and the session is no longer registered: looking up the key it was
  registered under, which is its own code, gives nothing.
\<close>

theorem C8_last_member_leaves:
  assumes r: "reachable w" and p: "map_of (parties w) pid = Some party"
    and only: "map fst (members party) = [uid]"
  shows "fst (leave_party e w uid) \<and> get_party e' (snd (leave_party e w uid)) pid = None
     \<and> get_party e' (snd (leave_party e w uid)) (party_id party) = None"
proof -
  from r have ok: "registry_ok w"
    by (rule reachable_registry_ok)
  from only have keys: "fst ` set (members party) = {uid}"
    by (metis list.set(1) list.simps(15) set_map)
  from registered_party_ok [OF ok p] keys
  have id: "party_id party = pid" and up: "code_ok pid" and h: "host_id party = uid"
    by (auto simp add: skel_ok_def skeleton_def roster_keys)
  from keys p registry_okD(4) [OF ok, of uid pid]
  have u: "map_of (user_party_map w) uid = Some pid"
    by (auto simp add: sk_def skeleton_def roster_keys)
  from keys have "fst ` set (AList.delete uid (members party)) = {}"
    by (simp add: keys_delete)
  then have gone: "AList.delete uid (members party) = []"
    by simp
  from leave_gone [OF u p h gone, of e] up
  have "get_party e' (snd (leave_party e w uid)) pid = None"
    by (simp add: get_party_def delete_conv' code_ok_upper)
  moreover from u p h gone have "fst (leave_party e w uid)"
    by (simp add: leave_party_def remove_member_def Let_def case_prod_beta split: option.splits)
  ultimately show ?thesis
    using id by simp
qed

theorem C8_witness:
  "reachable w_alice \<and> map_of (parties w_alice) (ascii ''AAAAAA'') = Some p_alice
   \<and> map fst (members p_alice) = [(ascii ''alice'')]
   \<and> fst (leave_party demo_env w_alice (ascii ''alice''))
   \<and> get_party demo_env (snd (leave_party demo_env w_alice (ascii ''alice''))) (ascii ''AAAAAA'') = None"
proof -
  from alice_alone_in_w_alice have l: "map_of (parties w_alice) (ascii ''AAAAAA'') = Some p_alice"
    "map fst (members p_alice) = [(ascii ''alice'')]"
    by simp_all
  from C8_last_member_leaves [OF reachable_w_alice l, of demo_env demo_env] reachable_w_alice l
  show ?thesis
    by simp
qed

subsection \<open>Joining\<close>

text \<open>
  C4. The claim is that join\_party never fails when the upper-cased code is registered,
  also when the caller is the only member of that session. Here alice, the host and only
  member of \<open>AAAAAA\<close>, joins \<open>aaaaaa\<close>: the code is registered, the implicit leave closes
  the party, and \<^verbatim>\<open>self.parties[party_id]\<close> raises \<^verbatim>\<open>KeyError\<close>. The party is gone and
  alice is in no party.
\<close>

theorem C4_sole_host_rejoin_raises:
  "map_of (parties w_alice) (py_upper (unicode_upper demo_env) (ascii ''aaaaaa'')) \<noteq> None
   \<and> fst (join_party demo_env w_alice (ascii ''aaaaaa'') (ascii ''alice'') (ascii ''Alice'') 1) = Inl KeyError
   \<and> get_party demo_env (snd (join_party demo_env w_alice (ascii ''aaaaaa'') (ascii ''alice'') (ascii ''Alice'') 1)) (ascii ''AAAAAA'')
       = None
   \<and> map_of (user_party_map (snd (join_party demo_env w_alice (ascii ''aaaaaa'') (ascii ''alice'') (ascii ''Alice'') 1)))
       (ascii ''alice'') = None"
  by code_simp

subsection \<open>Events that change nothing\<close>

text \<open>
  C10. An event whose kind is none of chat, reaction, ready, seek, play, pause and
  time\_update (also an event without a kind) leaves the whole state as it is: the
  sessions, the rosters, the playback state, the chat logs, the index, and the list of
  sends, so no message goes out. This holds for every sender, member of a session or not.
\<close>

theorem C10_unknown_kind_is_ignored:
  assumes "message (ascii ''type'') \<notin> {Some (PStr (ascii ''chat'')), Some (PStr (ascii ''reaction'')),
      Some (PStr (ascii ''ready'')), Some (PStr (ascii ''seek'')), Some (PStr (ascii ''play'')), Some (PStr (ascii ''pause'')),
      Some (PStr (ascii ''time_update''))}"
  shows "handle_message e w uid message = (Inr (), w)"
  using assms by (simp add: handle_message_def split: option.splits)

theorem C10_witness:
  "dance (ascii ''type'') \<notin> {Some (PStr (ascii ''chat'')), Some (PStr (ascii ''reaction'')),
      Some (PStr (ascii ''ready'')), Some (PStr (ascii ''seek'')), Some (PStr (ascii ''play'')), Some (PStr (ascii ''pause'')),
      Some (PStr (ascii ''time_update''))}
   \<and> handle_message demo_env w_ab (ascii ''bob'') dance = (Inr (), w_ab)"
proof -
  have h: "dance (ascii ''type'') \<notin> {Some (PStr (ascii ''chat'')), Some (PStr (ascii ''reaction'')),
      Some (PStr (ascii ''ready'')), Some (PStr (ascii ''seek'')), Some (PStr (ascii ''play'')), Some (PStr (ascii ''pause'')),
      Some (PStr (ascii ''time_update''))}"
    by (simp add: dance_def)
  from h C10_unknown_kind_is_ignored [where message = dance and e = demo_env and w = w_ab
      and uid = "(ascii ''bob'')", OF h]
  show ?thesis
    by simp
qed

text \<open>
  C5. A seek, play or pause event from a member whose host flag is false leaves the
  whole state as it is, the list of sends included: nothing is sent to any connection
  and no error is raised.
\<close>

theorem C5_non_host_playback_ignored:
  assumes "map_of (user_party_map w) uid = Some pid"
    and "map_of (parties w) pid = Some party"
    and "map_of (members party) uid = Some member"
    and "\<not> is_host member"
    and "message (ascii ''type'') \<in> {Some (PStr (ascii ''seek'')), Some (PStr (ascii ''play'')), Some (PStr (ascii ''pause''))}"
  shows "handle_message e w uid message = (Inr (), w)"
  using assms by (auto simp add: handle_message_def)

theorem C5_witness:
  "map_of (user_party_map w_ab) (ascii ''bob'') = Some (ascii ''AAAAAA'')
   \<and> map_of (parties w_ab) (ascii ''AAAAAA'') = Some p_ab
   \<and> map_of (members p_ab) (ascii ''bob'') = Some bob_ab
   \<and> \<not> is_host bob_ab
   \<and> seek5 (ascii ''type'') \<in> {Some (PStr (ascii ''seek'')), Some (PStr (ascii ''play'')), Some (PStr (ascii ''pause''))}
   \<and> handle_message demo_env w_ab (ascii ''bob'') seek5 = (Inr (), w_ab)"
proof -
  have k: "seek5 (ascii ''type'') \<in> {Some (PStr (ascii ''seek'')), Some (PStr (ascii ''play'')), Some (PStr (ascii ''pause''))}"
    by (simp add: seek5_def)
  from bob_in_w_ab have h: "map_of (user_party_map w_ab) (ascii ''bob'') = Some (ascii ''AAAAAA'')"
    "map_of (parties w_ab) (ascii ''AAAAAA'') = Some p_ab" "map_of (members p_ab) (ascii ''bob'') = Some bob_ab"
    "\<not> is_host bob_ab"
    by simp_all
  from C5_non_host_playback_ignored [where message = seek5 and e = demo_env, OF h k] h k
  show ?thesis
    by simp
qed

subsection \<open>Drift reconciliation\<close>

text \<open>
  The comparison \<^verbatim>\<open>abs(a - b) > thr\<close> at three places: two floats whose difference is
  3; the floats written \<open>2.1\<close> and \<open>0.1\<close>, whose difference rounds to the float \<open>2.0\<close>,
  which is not above the threshold; and an integer too large for a float.
\<close>

lemmas round_double_eval =
  round_double_def binary_exponent_def bit_length.simps pow2_def round_half_even_def Let_def


lemma drift_at_the_threshold:
  "round_double (21 / 10) = Finite (4728779608739021 / 2251799813685248)
   \<and> round_double (1 / 10) = Finite (3602879701896397 / 36028797018963968)
   \<and> drift_exceeds (PFloat (Finite (4728779608739021 / 2251799813685248)))
        (PFloat (Finite (3602879701896397 / 36028797018963968))) (Finite 2) = Inr False"
  by (simp add: drift_exceeds_def dbl_sub_def dbl_gt_def round_double_eval)

lemma drift_of_a_huge_int:
  "drift_exceeds (PInt (10 ^ 309)) (PFloat (Finite 10)) (Finite 2) = Inl OverflowError"
  by (simp add: drift_exceeds_def int_to_double_def round_double_eval)



subsection \<open>The position of a session\<close>

text \<open>
  C6, as stated, fails: the host seeks to \<open>-5\<close>, the position of the session becomes
  \<open>-5\<close>, in a reachable state.
\<close>

theorem C6_counterexample:
  "reachable w_back
   \<and> map_option current_time (get_party demo_env w_back (ascii ''AAAAAA'')) = Some (PFloat (Finite (- 5)))
   \<and> \<not> position_ok (PFloat (Finite (- 5)))"
proof -
  have "map_option current_time (get_party demo_env w_back (ascii ''AAAAAA'')) = Some (PFloat (Finite (- 5)))"
    by code_simp
  with reachable_w_back show ?thesis
    by (simp add: position_ok_def)
qed

text \<open>
  C6, amended. In every state reached by operations in which each seek, play and pause
  event handled has no time field or a time that is a number not below 0, the position
  of every registered session is a number not below 0.
\<close>

theorem C6_positions_nonneg_for_nonneg_payloads:
  assumes "reachable_nonneg w" and "map_of (parties w) c = Some p"
  shows "position_ok (current_time p)"
  using reachable_nonneg_positions_ok [OF assms(1)] assms(2)
  by (auto simp add: positions_ok_def position_of_def)

theorem C6_witness:
  "reachable_nonneg w_play \<and> map_of (parties w_play) (ascii ''AAAAAA'') = Some p_play
   \<and> position_ok (current_time p_play) \<and> current_time p_play = PFloat (Finite 10)"
proof -
  from bob_in_w_play have l: "map_of (parties w_play) (ascii ''AAAAAA'') = Some p_play"
    by simp
  from C6_positions_nonneg_for_nonneg_payloads [OF reachable_nonneg_w_play l]
    reachable_nonneg_w_play l playback_of_p_play
  show ?thesis
    by simp
qed

subsection \<open>Missing payload fields\<close>

text \<open>
  C7, as stated, fails: the host sends a seek event without a time while the position is
  10. The event is not dropped: the position becomes 0 and a sync directive goes to bob.
\<close>

theorem C7_counterexample:
  "seek_no_time (ascii ''time'') = None
   \<and> current_time p_play = PFloat (Finite 10)
   \<and> map_option current_time
       (get_party demo_env (snd (handle_message demo_env w_play (ascii ''alice'') seek_no_time))
          (ascii ''AAAAAA''))
       = Some (PInt 0)
   \<and> outbox (snd (handle_message demo_env w_play (ascii ''alice'') seek_no_time)) =
       outbox w_play @ [Sent 2 (Sync True (PInt 0) (Finite 1) False)]"
  by code_simp

text \<open>
  C7, amended. An event from a member of a session whose payload field is missing is
  not dropped: the field takes its default and the event takes effect, raising nothing
  (a time\_update raises only when the drift check does).
  \<^item> chat without message: an entry with the empty text, the next identifier and
    the next timestamp is added to the chat log of the session, and one send attempt of
    it is made for every member of the roster;
  \<^item> reaction without emoji: one send attempt of the reaction with the default emoji
    is made for every member, and the sessions stay as they are;
  \<^item> ready without ready: the ready flag of the sender becomes true, and one send
    attempt of the updated party is made for every member;
  \<^item> seek without time, from the host: the position of the session becomes 0, and
    one send attempt of the sync directive is made for every member but the sender;
  \<^item> play or pause without time, from the host: the playing flag is set or cleared,
    the position stays, and one send attempt of the sync directive is made for every
    member;
  \<^item> time\_update without time: the position the sender reported becomes 0, and the
    drift check runs with 0 against the position of the session.
\<close>

theorem C7_missing_field_takes_default:
  assumes "map_of (user_party_map w) uid = Some pid"
    and "map_of (parties w) pid = Some party"
    and "map_of (members party) uid = Some member"
    and "message (ascii ''type'') = Some (PStr kind)"
  shows "(kind = ascii ''chat'' \<and> message (ascii ''message'') = None \<longrightarrow>
            handle_message e w uid message =
              (Inr (),
               w\<lparr>parties := AList.update pid
                    (add_chat_message party
                       \<lparr>chat_id = uuid_str (uuid4 e (uuid_calls w)), chat_user_id = uid,
                        chat_username = username member, chat_message = PStr [],
                        chat_timestamp = utcnow e (clock_calls w),
                        chat_message_type = ascii ''chat''\<rparr>) (parties w),
                 outbox := outbox w @ attempts e (map snd (members party))
                    (ChatMsg
                       \<lparr>chat_id = uuid_str (uuid4 e (uuid_calls w)), chat_user_id = uid,
                        chat_username = username member, chat_message = PStr [],
                        chat_timestamp = utcnow e (clock_calls w),
                        chat_message_type = ascii ''chat''\<rparr>),
                 uuid_calls := Suc (uuid_calls w), clock_calls := Suc (clock_calls w)\<rparr>))
       \<and> (kind = ascii ''reaction'' \<and> message (ascii ''emoji'') = None \<longrightarrow>
            handle_message e w uid message =
              (Inr (),
               w\<lparr>outbox := outbox w @ attempts e (map snd (members party))
                    (Reaction uid (username member) (PStr default_emoji))\<rparr>))
       \<and> (kind = ascii ''ready'' \<and> message (ascii ''ready'') = None \<longrightarrow>
            handle_message e w uid message =
              (Inr (),
               w\<lparr>parties := AList.update pid
                    (party\<lparr>members := AList.update uid (member\<lparr>is_ready := PBool True\<rparr>)
                                         (members party)\<rparr>) (parties w),
                 outbox := outbox w @
                    attempts e
                      (map snd (AList.update uid (member\<lparr>is_ready := PBool True\<rparr>)
                                  (members party)))
                      (PartyUpdate
                         (to_dict
                            (party\<lparr>members := AList.update uid (member\<lparr>is_ready := PBool True\<rparr>)
                                                 (members party)\<rparr>)))\<rparr>))
       \<and> (kind = ascii ''seek'' \<and> message (ascii ''time'') = None \<and> is_host member \<longrightarrow>
            handle_message e w uid message =
              (Inr (),
               w\<lparr>parties := AList.update pid (party\<lparr>current_time := PInt 0\<rparr>) (parties w),
                 outbox := outbox w @
                    attempts e
                      (filter (\<lambda>m. \<not> excluded (Some uid) m) (map snd (members party)))
                      (Sync (is_playing party) (PInt 0) (playback_rate party) False)\<rparr>))
       \<and> (kind = ascii ''play'' \<and> message (ascii ''time'') = None \<and> is_host member \<longrightarrow>
            handle_message e w uid message =
              (Inr (),
               w\<lparr>parties := AList.update pid (party\<lparr>is_playing := True\<rparr>) (parties w),
                 outbox := outbox w @ attempts e (map snd (members party))
                    (Sync True (current_time party) (playback_rate party) False)\<rparr>))
       \<and> (kind = ascii ''pause'' \<and> message (ascii ''time'') = None \<and> is_host member \<longrightarrow>
            handle_message e w uid message =
              (Inr (),
               w\<lparr>parties := AList.update pid (party\<lparr>is_playing := False\<rparr>) (parties w),
                 outbox := outbox w @ attempts e (map snd (members party))
                    (Sync False (current_time party) (playback_rate party) False)\<rparr>))
       \<and> (kind = ascii ''time_update'' \<and> message (ascii ''time'') = None \<longrightarrow>
            handle_message e w uid message =
              (if is_playing party then
                 (case drift_exceeds (PInt 0) (current_time party) (sync_threshold party) of
                    Inl err \<Rightarrow>
                      (Inl err,
                       w\<lparr>parties := AList.update pid
                            (party\<lparr>members := AList.update uid (member\<lparr>m_current_time := PInt 0\<rparr>)
                                                 (members party)\<rparr>) (parties w)\<rparr>)
                  | Inr far \<Rightarrow>
                      (Inr (),
                       w\<lparr>parties := AList.update pid
                            (party\<lparr>members := AList.update uid (member\<lparr>m_current_time := PInt 0\<rparr>)
                                                 (members party)\<rparr>) (parties w),
                         outbox := outbox w @
                            (if far
                             then attempts e [member]
                                    (Sync (is_playing party) (current_time party)
                                       (playback_rate party) True)
                             else [])\<rparr>))
               else
                 (Inr (),
                  w\<lparr>parties := AList.update pid
                       (party\<lparr>members := AList.update uid (member\<lparr>m_current_time := PInt 0\<rparr>)
                                            (members party)\<rparr>) (parties w)\<rparr>)))"
proof -
  note l = assms(1,2,3)
  note k = assms(4)
  have chat: "handle_message e w uid message =
      (Inr (),
       w\<lparr>parties := AList.update pid
            (add_chat_message party
               \<lparr>chat_id = uuid_str (uuid4 e (uuid_calls w)), chat_user_id = uid,
                chat_username = username member, chat_message = PStr [],
                chat_timestamp = utcnow e (clock_calls w),
                chat_message_type = ascii ''chat''\<rparr>) (parties w),
         outbox := outbox w @ attempts e (map snd (members party))
            (ChatMsg
               \<lparr>chat_id = uuid_str (uuid4 e (uuid_calls w)), chat_user_id = uid,
                chat_username = username member, chat_message = PStr [],
                chat_timestamp = utcnow e (clock_calls w),
                chat_message_type = ascii ''chat''\<rparr>),
         uuid_calls := Suc (uuid_calls w), clock_calls := Suc (clock_calls w)\<rparr>)"
    if "kind = ascii ''chat''" "message (ascii ''message'') = None"
    using l k that
    by (simp add: handle_message_def msg_get_def Let_def fresh_uuid_def now_def emit_def
        store_def broadcast_attempts)
  have reaction: "handle_message e w uid message =
      (Inr (),
       w\<lparr>outbox := outbox w @ attempts e (map snd (members party))
            (Reaction uid (username member) (PStr default_emoji))\<rparr>)"
    if "kind = ascii ''reaction''" "message (ascii ''emoji'') = None"
    using l k that
    by (simp add: handle_message_def msg_get_def Let_def emit_def broadcast_attempts)
  have ready: "handle_message e w uid message =
      (Inr (),
       w\<lparr>parties := AList.update pid
            (party\<lparr>members := AList.update uid (member\<lparr>is_ready := PBool True\<rparr>)
                                 (members party)\<rparr>) (parties w),
         outbox := outbox w @
            attempts e
              (map snd (AList.update uid (member\<lparr>is_ready := PBool True\<rparr>) (members party)))
              (PartyUpdate
                 (to_dict
                    (party\<lparr>members := AList.update uid (member\<lparr>is_ready := PBool True\<rparr>)
                                         (members party)\<rparr>)))\<rparr>)"
    if "kind = ascii ''ready''" "message (ascii ''ready'') = None"
    using l k that
    by (simp add: handle_message_def msg_get_def Let_def emit_def store_def set_member_def
        broadcast_party_update_def broadcast_attempts)
  have seek: "handle_message e w uid message =
      (Inr (),
       w\<lparr>parties := AList.update pid (party\<lparr>current_time := PInt 0\<rparr>) (parties w),
         outbox := outbox w @
            attempts e (filter (\<lambda>m. \<not> excluded (Some uid) m) (map snd (members party)))
              (Sync (is_playing party) (PInt 0) (playback_rate party) False)\<rparr>)"
    if "kind = ascii ''seek''" "message (ascii ''time'') = None" "is_host member"
    using l k that
    by (simp add: handle_message_def msg_get_def Let_def emit_def store_def sync_of_def
        broadcast_attempts)
  have play: "handle_message e w uid message =
      (Inr (),
       w\<lparr>parties := AList.update pid (party\<lparr>is_playing := True\<rparr>) (parties w),
         outbox := outbox w @ attempts e (map snd (members party))
            (Sync True (current_time party) (playback_rate party) False)\<rparr>)"
    if "kind = ascii ''play''" "message (ascii ''time'') = None" "is_host member"
    using l k that
    by (simp add: handle_message_def msg_get_def Let_def emit_def store_def
        broadcast_attempts)
  have pause: "handle_message e w uid message =
      (Inr (),
       w\<lparr>parties := AList.update pid (party\<lparr>is_playing := False\<rparr>) (parties w),
         outbox := outbox w @ attempts e (map snd (members party))
            (Sync False (current_time party) (playback_rate party) False)\<rparr>)"
    if "kind = ascii ''pause''" "message (ascii ''time'') = None" "is_host member"
    using l k that
    by (simp add: handle_message_def msg_get_def Let_def emit_def store_def
        broadcast_attempts)
  have tu: "handle_message e w uid message =
      (if is_playing party then
         (case drift_exceeds (PInt 0) (current_time party) (sync_threshold party) of
            Inl err \<Rightarrow>
              (Inl err,
               w\<lparr>parties := AList.update pid
                    (party\<lparr>members := AList.update uid (member\<lparr>m_current_time := PInt 0\<rparr>)
                                         (members party)\<rparr>) (parties w)\<rparr>)
          | Inr far \<Rightarrow>
              (Inr (),
               w\<lparr>parties := AList.update pid
                    (party\<lparr>members := AList.update uid (member\<lparr>m_current_time := PInt 0\<rparr>)
                                         (members party)\<rparr>) (parties w),
                 outbox := outbox w @
                    (if far
                     then attempts e [member]
                            (Sync (is_playing party) (current_time party)
                               (playback_rate party) True)
                     else [])\<rparr>))
       else
         (Inr (),
          w\<lparr>parties := AList.update pid
               (party\<lparr>members := AList.update uid (member\<lparr>m_current_time := PInt 0\<rparr>)
                                    (members party)\<rparr>) (parties w)\<rparr>))"
    if "kind = ascii ''time_update''" "message (ascii ''time'') = None"
    using l k that
    by (simp add: handle_message_def msg_get_def Let_def emit_def store_def set_member_def
        sync_of_def send_to_member_attempts attempts_def split: sum.splits)
  show ?thesis
    by (intro conjI impI; elim conjE; (rule chat reaction ready seek play pause tu; assumption))
qed

theorem C7_witness:
  "map_of (user_party_map w_play) (ascii ''alice'') = Some (ascii ''AAAAAA'')
   \<and> map_of (parties w_play) (ascii ''AAAAAA'') = Some p_play
   \<and> map_of (members p_play) (ascii ''alice'') = Some alice_play
   \<and> seek_no_time (ascii ''type'') = Some (PStr (ascii ''seek''))
   \<and> seek_no_time (ascii ''time'') = None \<and> is_host alice_play
   \<and> handle_message demo_env w_play (ascii ''alice'') seek_no_time =
       (Inr (),
        w_play\<lparr>parties := AList.update (ascii ''AAAAAA'') (p_play\<lparr>current_time := PInt 0\<rparr>)
                  (parties w_play),
          outbox := outbox w_play @
             attempts demo_env
               (filter (\<lambda>m. \<not> excluded (Some (ascii ''alice'')) m) (map snd (members p_play)))
               (Sync (is_playing p_play) (PInt 0) (playback_rate p_play) False)\<rparr>)"
proof -
  from alice_in_w_play
  have h: "map_of (user_party_map w_play) (ascii ''alice'') = Some (ascii ''AAAAAA'')"
    "map_of (parties w_play) (ascii ''AAAAAA'') = Some p_play"
    "map_of (members p_play) (ascii ''alice'') = Some alice_play"
    and host: "is_host alice_play"
    by simp_all
  have k: "seek_no_time (ascii ''type'') = Some (PStr (ascii ''seek''))"
    and t: "seek_no_time (ascii ''time'') = None"
    by (simp_all add: seek_no_time_def)
  from C7_missing_field_takes_default [where message = seek_no_time and e = demo_env, OF h k]
    h k t host
  show ?thesis
    by simp
qed

subsection \<open>Fan-out\<close>

text \<open>
  C9. A broadcast makes one send attempt for each member of the roster, in roster order,
  the excluded sender left out. The attempt for a member delivers the message exactly
  when the send on that member's own connection succeeds, whatever happens on the
  connections of the others: a failed send is caught and recorded, and the loop goes on.
  The broadcast has no error result: nothing is raised to its caller.
\<close>

theorem C9_broadcast_isolates_failures:
  "broadcast e p msg ex =
     map (\<lambda>m. if send_json e (websocket m) msg = None then Sent (websocket m) msg
               else SendFailed (websocket m) msg)
       (filter (\<lambda>m. \<not> excluded ex m) (map snd (members p)))
   \<and> (\<forall>m \<in> set (map snd (members p)).
        \<not> excluded ex m \<and> send_json e (websocket m) msg = None
        \<longrightarrow> Sent (websocket m) msg \<in> set (broadcast e p msg ex))"
  unfolding broadcast_def broadcast_loop_eq by auto

theorem C9_witness:
  "send_json lossy_env 2 hello \<noteq> None
   \<and> broadcast lossy_env p_abc hello None = [Sent 1 hello, SendFailed 2 hello, Sent 3 hello]
   \<and> broadcast lossy_env p_abc hello (Some (ascii ''alice'')) = [SendFailed 2 hello, Sent 3 hello]"
proof -
  have s: "send_json lossy_env ws hello = None \<longleftrightarrow> ws \<noteq> 2" for ws
    by (simp add: lossy_env_def)
  from roster_abc obtain a b c where m: "map snd (members p_abc) = [a, b, c]"
    "user_id a = (ascii ''alice'')" "websocket a = 1" "user_id b = (ascii ''bob'')" "websocket b = 2"
    "user_id c = (ascii ''carol'')" "websocket c = 3"
    by auto
  from C9_broadcast_isolates_failures [of lossy_env p_abc hello None]
    C9_broadcast_isolates_failures [of lossy_env p_abc hello "Some (ascii ''alice'')"]
  show ?thesis
    by (simp add: m s excluded_def)
qed

end
